theory Spec2Isabelle
  imports Main "HOL-Library.Multiset"
begin

section \<open>Errors and Python arithmetic\<close>

text \<open>
  The exceptions the conversion code can raise, either itself (\<open>assert\<close>, a missing
  dictionary key, an unbound global name, integer division by zero) or through the tensor
  library (a bad reshape or concatenation is a RuntimeError, an index or dimension out of
  range an IndexError, unpacking a size of the wrong length a ValueError).
\<close>

datatype error =
  RuntimeError | IndexError | KeyError | ValueError | AssertionError | NameError
  | ZeroDivisionError

definition rbind :: "error + 'a \<Rightarrow> ('a \<Rightarrow> error + 'b) \<Rightarrow> error + 'b" where
  "rbind m f = (case m of Inl e \<Rightarrow> Inl e | Inr x \<Rightarrow> f x)"

definition py_floordiv :: "int \<Rightarrow> int \<Rightarrow> error + int" where
  \<comment> \<open>Python's \<open>a // b\<close> on ints: floor division, as \<open>div\<close> on \<open>int\<close>; raises on zero.\<close>
  "py_floordiv a b = (if b = 0 then Inl ZeroDivisionError else Inr (a div b))"

definition py_mod :: "int \<Rightarrow> int \<Rightarrow> error + int" where
  \<comment> \<open>Python's \<open>a % b\<close> on ints: the sign follows the divisor, as \<open>mod\<close> on \<open>int\<close>.\<close>
  "py_mod a b = (if b = 0 then Inl ZeroDivisionError else Inr (a mod b))"

definition py_index :: "'a list \<Rightarrow> int \<Rightarrow> error + 'a" where
  \<comment> \<open>\<open>xs[i]\<close> on a list or tuple: negative indices count from the end.\<close>
  "py_index xs i =
     (let n = int (length xs); j = (if i < 0 then i + n else i)
      in if 0 \<le> j \<and> j < n then Inr (xs ! nat j) else Inl IndexError)"

definition slice_bound :: "int \<Rightarrow> nat \<Rightarrow> nat" where
  \<comment> \<open>How Python clamps one bound of a slice against a length \<open>n\<close>.\<close>
  "slice_bound i n = (if i < 0 then nat (max (i + int n) 0) else min (nat i) n)"

section \<open>Tensors\<close>

text \<open>
  A dense tensor is its shape and its elements in row-major order. The element type is
  left open: the conversion only moves elements around (and pads with zero), so equality
  of the element lists is bit-identity of the tensors. \<open>contiguous\<close>, \<open>detach\<close>,
  \<open>cpu\<close> and \<open>clone\<close> do not change shape or elements and are the identity here.
\<close>

datatype 'a tensor = Tensor (shape: "nat list") (data: "'a list")

definition well_formed :: "'a tensor \<Rightarrow> bool" where
  "well_formed t = (length (data t) = prod_list (shape t))"

definition numel :: "'a tensor \<Rightarrow> nat" where
  "numel t = prod_list (shape t)"

definition wrap_dim :: "int \<Rightarrow> nat \<Rightarrow> nat option" where
  \<comment> \<open>A dimension argument may be negative; it must lie in \<open>[-n, n)\<close>.\<close>
  "wrap_dim d n =
     (if - int n \<le> d \<and> d < int n then Some (nat (if d < 0 then d + int n else d)) else None)"

definition infer_size :: "int list \<Rightarrow> nat \<Rightarrow> error + nat list" where
  \<comment> \<open>The target shape of a reshape: at most one entry may be \<open>-1\<close> and is inferred; with no
     elements and a zero among the other entries the inferred entry is ambiguous, an error.\<close>
  "infer_size dims n =
     (if list_ex (\<lambda>d. d < - 1) dims then Inl RuntimeError
      else if 1 < count_list dims (- 1) then Inl RuntimeError
      else
        let newsize = prod_list (map nat (filter (\<lambda>d. d \<noteq> - 1) dims)) in
        if - 1 \<in> set dims then
          (if 0 < newsize \<and> n mod newsize = 0
           then Inr (map (\<lambda>d. if d = - 1 then n div newsize else nat d) dims)
           else Inl RuntimeError)
        else if n = newsize then Inr (map nat dims)
        else Inl RuntimeError)"

definition reshape :: "'a tensor \<Rightarrow> int list \<Rightarrow> error + 'a tensor" where
  "reshape t dims = rbind (infer_size dims (numel t)) (\<lambda>s. Inr (Tensor s (data t)))"

definition narrow :: "'a tensor \<Rightarrow> nat \<Rightarrow> nat \<Rightarrow> nat \<Rightarrow> 'a tensor" where
  \<comment> \<open>The sub-tensor of indices \<open>[start, start + len)\<close> along dimension \<open>d\<close>.\<close>
  "narrow t d start len =
     (let s = shape t;
          outer = prod_list (take d s);
          sz = s ! d;
          inner = prod_list (drop (Suc d) s)
      in Tensor (s[d := len])
           (concat (map (\<lambda>j. take (len * inner) (drop ((j * sz + start) * inner) (data t)))
                        [0..<outer])))"

definition slice_dim :: "'a tensor \<Rightarrow> nat \<Rightarrow> int \<Rightarrow> int \<Rightarrow> error + 'a tensor" where
  \<comment> \<open>Indexing with \<open>start:stop\<close> in position \<open>d\<close> and \<open>:\<close> everywhere else.\<close>
  "slice_dim t d start stop =
     (if d < length (shape t) then
        (let n = shape t ! d; b = slice_bound start n; e = slice_bound stop n
         in Inr (narrow t d b (e - b)))
      else Inl IndexError)"

definition select_dim :: "'a tensor \<Rightarrow> nat \<Rightarrow> int \<Rightarrow> error + 'a tensor" where
  \<comment> \<open>Indexing with an integer in position \<open>d\<close> and \<open>:\<close> everywhere else: the dimension goes.\<close>
  "select_dim t d i =
     (if d < length (shape t) then
        (let n = int (shape t ! d); j = (if i < 0 then i + n else i)
         in if 0 \<le> j \<and> j < n
            then Inr (Tensor (take d (shape t) @ drop (Suc d) (shape t))
                             (data (narrow t d (nat j) 1)))
            else Inl IndexError)
      else Inl IndexError)"

definition unsqueeze :: "'a tensor \<Rightarrow> nat \<Rightarrow> error + 'a tensor" where
  "unsqueeze t d =
     (if d \<le> length (shape t)
      then Inr (Tensor (take d (shape t) @ [1] @ drop d (shape t)) (data t))
      else Inl IndexError)"

definition squeeze :: "'a tensor \<Rightarrow> 'a tensor" where
  \<comment> \<open>\<open>squeeze()\<close> without an argument removes every dimension of size one.\<close>
  "squeeze t = Tensor (filter (\<lambda>n. n \<noteq> 1) (shape t)) (data t)"

definition cat :: "'a tensor list \<Rightarrow> nat \<Rightarrow> error + 'a tensor" where
  \<comment> \<open>Concatenation along dimension \<open>d\<close>. One-dimensional empty tensors are skipped (the
     library's legacy rule); the others must agree in every other dimension.\<close>
  "cat ts d =
     (if ts = [] then Inl RuntimeError
      else case filter (\<lambda>t. shape t \<noteq> [0]) ts of
        [] \<Rightarrow> Inr (Tensor [0] [])
      | u # us \<Rightarrow>
          (let s = shape u in
           if list_ex (\<lambda>t. shape t = []) (u # us) then Inl RuntimeError
           else if \<not> d < length s then Inl IndexError
           else if list_all (\<lambda>t. (shape t)[d := 0] = s[d := 0]) us then
             Inr (Tensor (s[d := sum_list (map (\<lambda>t. shape t ! d) (u # us))])
                    (concat (map (\<lambda>j. concat (map (\<lambda>t. let b = prod_list (drop d (shape t))
                                                        in take b (drop (j * b) (data t)))
                                                  (u # us)))
                                 [0..<prod_list (take d s)])))
           else Inl RuntimeError))"

definition chunk :: "'a tensor \<Rightarrow> int \<Rightarrow> int \<Rightarrow> error + 'a tensor list" where
  \<comment> \<open>\<open>torch.chunk\<close>: pieces of \<open>ceil(n / chunks)\<close> indices along the dimension, the last one
     shorter when \<open>n\<close> is not a multiple; fewer than \<open>chunks\<close> pieces may come back. Only
     for \<open>n = 0\<close> the number of (empty) pieces is \<open>chunks\<close> itself.\<close>
  "chunk t chunks dim =
     (if shape t = [] then Inl RuntimeError
      else if chunks \<le> 0 then Inl RuntimeError
      else case wrap_dim dim (length (shape t)) of
        None \<Rightarrow> Inl IndexError
      | Some d \<Rightarrow>
          (let n = shape t ! d; c = nat chunks; split_size = (n + c - 1) div c in
           if split_size = 0 \<and> n = 0 then Inr (replicate c (narrow t d 0 0))
           else
             let k = max ((n + split_size - 1) div split_size) 1;
                 last_split_size = split_size - (split_size * k - n)
             in Inr (map (\<lambda>i. narrow t d (i * split_size)
                                  (if i < k - 1 then split_size else last_split_size))
                         [0..<k])))"

section \<open>Matrix splitter\<close>

definition split :: "'a tensor \<Rightarrow> int \<Rightarrow> int \<Rightarrow> int \<Rightarrow> error + 'a tensor" where
  "split v tp_size idx dim =
     (if tp_size = 1 then Inr v
      else if length (shape v) = 1 then rbind (chunk v tp_size 0) (\<lambda>cs. py_index cs idx)
      else rbind (chunk v tp_size dim) (\<lambda>cs. py_index cs idx))"

section \<open>Head-group reassembler\<close>

type_synonym config = "string \<rightharpoonup> int"

definition cfg_get :: "config \<Rightarrow> string \<Rightarrow> error + int" where
  "cfg_get c k = (case c k of None \<Rightarrow> Inl KeyError | Some v \<Rightarrow> Inr v)"

definition shuffle_qkv_weights :: "'a tensor \<Rightarrow> config \<Rightarrow> error + 'a tensor" where
  "shuffle_qkv_weights weights config =
     rbind (cfg_get config ''num_attention_heads'') (\<lambda>num_heads.
     rbind (if config ''num_kv_heads'' \<noteq> None then cfg_get config ''num_kv_heads''
            else cfg_get config ''num_key_value_heads'') (\<lambda>num_kv_heads.
     rbind (py_floordiv num_heads num_kv_heads) (\<lambda>num_q_per_kv.
     rbind (cfg_get config ''hidden_size'') (\<lambda>hidden_size.
     rbind (py_floordiv hidden_size num_heads) (\<lambda>head_dim.
     let input_shape = shape weights in
     rbind (if length (shape weights) < 2 then unsqueeze weights 1 else Inr weights) (\<lambda>w1.
     rbind (reshape w1 [num_kv_heads, num_q_per_kv + 2, head_dim, int (last (shape w1))])
       (\<lambda>w2.
     rbind (slice_dim w2 1 0 (- 2)) (\<lambda>q.
     rbind (select_dim w2 1 (- 2)) (\<lambda>k.
     rbind (select_dim w2 1 (- 1)) (\<lambda>v.
     rbind (reshape q [- 1, int (shape q ! 2), int (shape q ! 3)]) (\<lambda>q'.
     rbind (cat [q', k, v] 0) (\<lambda>w3.
     rbind (reshape w3 [- 1, int (shape w3 ! 2)]) (\<lambda>w4.
     let w5 = squeeze w4 in
     if input_shape = shape w5 then Inr w5 else Inl AssertionError)))))))))))))"

section \<open>QKV tensor-parallel splitter\<close>

definition split_qkv_tp :: "'a tensor \<Rightarrow> int \<Rightarrow> int \<Rightarrow> int \<Rightarrow> int \<Rightarrow> error + 'a tensor" where
  "split_qkv_tp v n_head n_hidden tensor_parallel rank =
     rbind (reshape v [3, n_hidden, n_hidden]) (\<lambda>v3.
     rbind (split v3 tensor_parallel rank 1) (\<lambda>split_v.
     rbind (py_floordiv n_hidden tensor_parallel) (\<lambda>per_rank.
     reshape split_v [3 * per_rank, n_hidden])))"

definition split_qkv_bias_tp :: "'a tensor \<Rightarrow> int \<Rightarrow> int \<Rightarrow> int \<Rightarrow> int \<Rightarrow> error + 'a tensor" where
  "split_qkv_bias_tp v n_head n_hidden tensor_parallel rank =
     rbind (reshape v [3, n_hidden]) (\<lambda>v2.
     rbind (split v2 tensor_parallel rank 1) (\<lambda>split_v.
     rbind (py_floordiv n_hidden tensor_parallel) (\<lambda>per_rank.
     reshape split_v [3 * per_rank])))"

definition split_matrix_tp :: "'a tensor \<Rightarrow> int \<Rightarrow> int \<Rightarrow> int \<Rightarrow> error + 'a tensor" where
  "split_matrix_tp v tensor_parallel rank dim = split v tensor_parallel rank dim"

text \<open>
  The two branches of \<open>split_weights_tp\<close> for the fused QKV weight and bias. The
  grouped-query branch cuts the reassembled tensor into query, key and value rows, splits
  each along its rows and concatenates the three shards.
\<close>

definition gqa_split :: "'a tensor \<Rightarrow> int \<Rightarrow> int list \<Rightarrow> int \<Rightarrow> int \<Rightarrow> error + 'a tensor" where
  \<comment> \<open>\<open>tail\<close> is \<open>[hidden_size]\<close> for the weight and \<open>[]\<close> for the bias.\<close>
  "gqa_split qkv num_q_per_kv tail tp_size rank =
     rbind (reshape qkv ([num_q_per_kv + 2, - 1] @ tail)) (\<lambda>w.
     rbind (slice_dim w 0 0 num_q_per_kv) (\<lambda>qs.
     rbind (reshape qs ([- 1] @ tail)) (\<lambda>q.
     rbind (slice_dim w 0 num_q_per_kv (num_q_per_kv + 1)) (\<lambda>ks.
     rbind (reshape ks ([- 1] @ tail)) (\<lambda>k.
     rbind (slice_dim w 0 (num_q_per_kv + 1) (num_q_per_kv + 2)) (\<lambda>vs.
     rbind (reshape vs ([- 1] @ tail)) (\<lambda>v.
     rbind (split q tp_size rank 0) (\<lambda>sq.
     rbind (split k tp_size rank 0) (\<lambda>sk.
     rbind (split v tp_size rank 0) (\<lambda>sv.
     cat [sq, sk, sv] 0))))))))))"

definition qkv_gqa_path ::
  "'a tensor \<Rightarrow> 'a tensor \<Rightarrow> int \<Rightarrow> int \<Rightarrow> int \<Rightarrow> int \<Rightarrow> int \<Rightarrow> error + 'a tensor \<times> 'a tensor" where
  "qkv_gqa_path qkv_weight qkv_bias num_heads num_kv_heads hidden_size tp_size rank =
     rbind (py_floordiv num_heads num_kv_heads) (\<lambda>num_q_per_kv.
     rbind (gqa_split qkv_weight num_q_per_kv [hidden_size] tp_size rank) (\<lambda>split_weight.
     rbind (gqa_split qkv_bias num_q_per_kv [] tp_size rank) (\<lambda>split_bias.
     Inr (split_weight, split_bias))))"

definition qkv_mha_path ::
  "'a tensor \<Rightarrow> 'a tensor \<Rightarrow> int \<Rightarrow> int \<Rightarrow> int \<Rightarrow> int \<Rightarrow> error + 'a tensor \<times> 'a tensor" where
  "qkv_mha_path qkv_weight qkv_bias num_heads hidden_size tp_size rank =
     rbind (split_qkv_tp qkv_weight num_heads hidden_size tp_size rank) (\<lambda>split_weight.
     rbind (split_qkv_bias_tp qkv_bias num_heads hidden_size tp_size rank) (\<lambda>split_bias.
     Inr (split_weight, split_bias)))"

section \<open>Embedding splitter\<close>

text \<open>
  The module binds no name \<open>pad_vocab_size\<close>: it defines none and its imports are
  \<open>torch\<close>, \<open>QuantAlgo\<close> and \<open>str_dtype_to_torch\<close>. The binding is a parameter
  of the model, \<open>None\<close> for the module as it is written, so that the call in the padding
  branch raises NameError before anything is padded.
\<close>

definition pad_rows :: "'a::zero tensor \<Rightarrow> int \<Rightarrow> error + 'a tensor" where
  \<comment> \<open>\<open>pad(param, (0, 0, 0, pad_width), value=0)\<close> on a matrix: zero rows at the end; a
     negative width removes rows, and more than there are is an error.\<close>
  "pad_rows t pad_width =
     (case shape t of
        [r, c] \<Rightarrow>
          if 0 \<le> pad_width
          then Inr (Tensor [r + nat pad_width, c] (data t @ replicate (nat pad_width * c) 0))
          else if int r + pad_width < 0 then Inl RuntimeError
          else Inr (Tensor [nat (int r + pad_width), c]
                      (take (nat (int r + pad_width) * c) (data t)))
      | _ \<Rightarrow> Inl RuntimeError)"

definition split_embedding_with ::
  "(int \<Rightarrow> int \<Rightarrow> error + int) option \<Rightarrow> 'a::zero tensor \<Rightarrow> int \<Rightarrow> int \<Rightarrow> bool \<Rightarrow> int
     \<Rightarrow> error + 'a tensor" where
  "split_embedding_with pad_vocab_size param tp_size tp_rank use_parallel_embedding sharding_dim =
     (if \<not> use_parallel_embedding then Inr param
      else case shape param of
        [vocab_size, hidden_size] \<Rightarrow>
          rbind
            (if sharding_dim = 0 then
               rbind (py_mod (int vocab_size) tp_size) (\<lambda>r.
               if r \<noteq> 0 then
                 (case pad_vocab_size of
                    None \<Rightarrow> Inl NameError
                  | Some f \<Rightarrow>
                      rbind (f (int vocab_size) tp_size) (\<lambda>vocab_size_padded.
                      pad_rows param (vocab_size_padded - int vocab_size)))
               else
                 rbind (py_mod (int hidden_size) tp_size) (\<lambda>r'.
                 if r' = 0 then Inr param else Inl AssertionError))
             else Inr param)
            (\<lambda>p. split p tp_size tp_rank sharding_dim)
      | _ \<Rightarrow> Inl ValueError)"

definition split_embedding_tensor ::
  "'a::zero tensor \<Rightarrow> int \<Rightarrow> int \<Rightarrow> bool \<Rightarrow> int \<Rightarrow> error + 'a tensor" where
  \<comment> \<open>\<open>split_embedding\<close> on a tensor, in the module as written.\<close>
  "split_embedding_tensor = split_embedding_with None"

definition split_embedding ::
  "'a::zero tensor option \<Rightarrow> int \<Rightarrow> int \<Rightarrow> bool \<Rightarrow> int \<Rightarrow> error + 'a tensor option" where
  "split_embedding param tp_size tp_rank use_parallel_embedding sharding_dim =
     (case param of
        None \<Rightarrow> Inr None
      | Some p \<Rightarrow>
          rbind (split_embedding_tensor p tp_size tp_rank use_parallel_embedding sharding_dim)
            (\<lambda>r. Inr (Some r)))"

definition pad_vocab_size_spec :: "int \<Rightarrow> int \<Rightarrow> error + int" where
  \<comment> \<open>Modelled from the spec: \<open>pad_vocab_size\<close>, which the module calls and does not
     import; the spec has it round the vocabulary size up to the next multiple of
     \<open>tp_size\<close>.\<close>
  "pad_vocab_size_spec vocab_size tp_size =
     (if tp_size = 0 then Inl ZeroDivisionError
      else Inr ((vocab_size + tp_size - 1) div tp_size * tp_size))"

section \<open>Parameter mapping and quantization packer\<close>

text \<open>
  A Python dictionary keeps its keys in insertion order, and assigning to a key that is
  present keeps its place: an association list with unique keys.
\<close>

type_synonym 'a dict = "(string \<times> 'a tensor) list"

fun dict_set :: "string \<Rightarrow> 'a tensor \<Rightarrow> 'a dict \<Rightarrow> 'a dict" where
  "dict_set k v [] = [(k, v)]"
| "dict_set k v ((k', v') # ps) =
     (if k' = k then (k, v) # ps else (k', v') # dict_set k v ps)"

definition dict_get :: "'a dict \<Rightarrow> string \<Rightarrow> error + 'a tensor" where
  "dict_get d k = (case map_of d k of None \<Rightarrow> Inl KeyError | Some v \<Rightarrow> Inr v)"

fun dict_update :: "'a dict \<Rightarrow> 'a dict \<Rightarrow> 'a dict" where
  \<comment> \<open>\<open>d.update(other)\<close>\<close>
  "dict_update d [] = d"
| "dict_update d ((k, v) # ps) = dict_update (dict_set k v d) ps"

datatype quant_type = Int8 | Quint4x2

text \<open>
  What the module uses and does not define: the cast of a tensor to a dtype, elementwise;
  \<open>str_dtype_to_torch\<close>; and the quantization kernel, which returns the packed weight
  and the per-channel scales. They are parameters of the model.
\<close>

record ('a, 'd) externals =
  cast :: "'d \<Rightarrow> 'a \<Rightarrow> 'a"
  str_dtype_to_torch :: "string \<Rightarrow> error + 'd"
  symmetric_quantize :: "'a tensor \<Rightarrow> quant_type option \<Rightarrow> error + 'a tensor \<times> 'a tensor"

definition to_dtype :: "('a, 'd) externals \<Rightarrow> 'd \<Rightarrow> 'a tensor \<Rightarrow> 'a tensor" where
  "to_dtype ext dt t = Tensor (shape t) (map (cast ext dt) (data t))"

definition transpose2 :: "'a tensor \<Rightarrow> error + 'a tensor" where
  \<comment> \<open>\<open>t()\<close>: a matrix is transposed, a tensor of fewer dimensions is returned as it is.\<close>
  "transpose2 t =
     (case shape t of
        [r, c] \<Rightarrow>
          Inr (Tensor [c, r] (concat (map (\<lambda>j. map (\<lambda>i. data t ! (i * c + j)) [0..<r]) [0..<c])))
      | [] \<Rightarrow> Inr t
      | [n] \<Rightarrow> Inr t
      | _ \<Rightarrow> Inl RuntimeError)"

definition get_weight :: "('a, 'd) externals \<Rightarrow> 'a dict \<Rightarrow> string \<Rightarrow> 'd \<Rightarrow> error + 'a tensor" where
  "get_weight ext config prefix dt =
     rbind (dict_get config (prefix @ ''.weight'')) (\<lambda>t. Inr (to_dtype ext dt t))"

definition get_bias :: "('a, 'd) externals \<Rightarrow> 'a dict \<Rightarrow> string \<Rightarrow> 'd \<Rightarrow> error + 'a tensor" where
  "get_bias ext config prefix dt =
     rbind (dict_get config (prefix @ ''.bias'')) (\<lambda>t. Inr (to_dtype ext dt t))"

definition get_weight_and_bias ::
  "('a, 'd) externals \<Rightarrow> 'a dict \<Rightarrow> string \<Rightarrow> 'd \<Rightarrow> error + 'a tensor \<times> 'a tensor" where
  "get_weight_and_bias ext config prefix dt =
     rbind (get_weight ext config prefix dt) (\<lambda>w.
     rbind (get_bias ext config prefix dt) (\<lambda>b. Inr (w, b)))"

definition get_tllm_linear_weight ::
  "('a, 'd) externals \<Rightarrow> 'a tensor \<Rightarrow> string \<Rightarrow> 'a tensor option \<Rightarrow> bool \<Rightarrow> quant_type option
     \<Rightarrow> error + 'a dict" where
  "get_tllm_linear_weight ext weight prefix bias use_weight_only plugin_weight_only_quant_type =
     rbind
       (if use_weight_only then
          rbind (transpose2 weight) (\<lambda>v.
          rbind (symmetric_quantize ext v plugin_weight_only_quant_type)
            (\<lambda>(processed_torch_weights, torch_weight_scales).
          Inr (dict_set (prefix @ ''.per_channel_scale'') torch_weight_scales
                 (dict_set (prefix @ ''.weight'') processed_torch_weights []))))
        else Inr (dict_set (prefix @ ''.weight'') weight []))
       (\<lambda>results.
          Inr (case bias of
                 None \<Rightarrow> results
               | Some b \<Rightarrow> dict_set (prefix @ ''.bias'') b results))"

section \<open>Per-layer orchestrator\<close>

record args =
  arg_tp_size :: int
  arg_use_weight_only :: bool
  arg_weight_only_precision :: string
  arg_dtype :: string

definition plugin_type :: "args \<Rightarrow> quant_type option" where
  "plugin_type a =
     (if arg_use_weight_only a \<and> arg_weight_only_precision a = ''int8'' then Some Int8
      else if arg_use_weight_only a \<and> arg_weight_only_precision a = ''int4'' then Some Quint4x2
      else None)"

function str_nat :: "nat \<Rightarrow> string" where
  \<comment> \<open>The decimal digits of a layer index, as an f-string prints it.\<close>
  "str_nat n =
     (if n < 10 then [''0123456789'' ! n]
      else str_nat (n div 10) @ [''0123456789'' ! (n mod 10)])"
  by pat_completeness auto
termination
  by (relation "measure id") auto

declare str_nat.simps [simp del]

definition vocab_embedding_key :: string where
  "vocab_embedding_key = ''transformer.vocab_embedding.weight''"

definition lm_head_key :: string where
  "lm_head_key = ''lm_head.weight''"

definition convert_layer ::
  "('a, 'd) externals \<Rightarrow> int \<Rightarrow> int \<Rightarrow> int \<Rightarrow> args \<Rightarrow> int \<Rightarrow> 'd \<Rightarrow> 'a dict \<Rightarrow> nat
     \<Rightarrow> error + 'a dict" where
  \<comment> \<open>One iteration of the loop over the layers in \<open>split_weights_tp\<close>.\<close>
  "convert_layer ext num_heads num_kv_heads hidden_size a rank dt weights layer_id =
     (let layer_prefix = ''transformer.layers.'' @ str_nat layer_id @ ''.'';
          tp = arg_tp_size a;
          pack = (\<lambda>weight prefix bias.
                    get_tllm_linear_weight ext weight prefix bias
                      (arg_use_weight_only a) (plugin_type a));
          qkv = layer_prefix @ ''attention.qkv'';
          dense = layer_prefix @ ''attention.dense'';
          fc = layer_prefix @ ''mlp.fc'';
          proj = layer_prefix @ ''mlp.proj''
      in
      rbind (get_weight_and_bias ext weights qkv dt) (\<lambda>(qkv_weight, qkv_bias).
      rbind (if num_heads \<noteq> num_kv_heads
             then qkv_gqa_path qkv_weight qkv_bias num_heads num_kv_heads hidden_size tp rank
             else qkv_mha_path qkv_weight qkv_bias num_heads hidden_size tp rank)
        (\<lambda>(split_weight, split_bias).
      rbind (pack split_weight qkv (Some split_bias)) (\<lambda>r1.
      let weights1 = dict_update weights r1 in
      rbind (get_weight_and_bias ext weights1 dense dt)
        (\<lambda>(attn_dense_weight, attn_dense_bias).
      rbind (split_matrix_tp attn_dense_weight tp rank 1) (\<lambda>split_v.
      rbind (pack split_v dense (Some attn_dense_bias)) (\<lambda>r2.
      let weights2 = dict_update weights1 r2 in
      rbind (get_weight_and_bias ext weights2 fc dt) (\<lambda>(mlp_fc_weight, mlp_fc_bias).
      rbind (split_matrix_tp mlp_fc_weight tp rank 0) (\<lambda>split_v.
      rbind (split_matrix_tp mlp_fc_bias tp rank 0) (\<lambda>bias.
      rbind (pack split_v fc (Some bias)) (\<lambda>r3.
      let weights3 = dict_update weights2 r3 in
      rbind (get_weight_and_bias ext weights3 proj dt) (\<lambda>(mlp_proj_weight, mlp_proj_bias).
      rbind (split_matrix_tp mlp_proj_weight tp rank 1) (\<lambda>split_v.
      rbind (pack split_v proj (Some mlp_proj_bias)) (\<lambda>r4.
      Inr (dict_update weights3 r4)))))))))))))))"

fun layers_loop :: "('w \<Rightarrow> nat \<Rightarrow> error + 'w) \<Rightarrow> nat list \<Rightarrow> 'w \<Rightarrow> error + 'w" where
  "layers_loop f [] w = Inr w"
| "layers_loop f (i # is) w = rbind (f w i) (layers_loop f is)"

definition split_weights_tp ::
  "('a::zero, 'd) externals \<Rightarrow> config \<Rightarrow> 'a dict \<Rightarrow> args \<Rightarrow> int \<Rightarrow> 'd \<Rightarrow> error + 'a dict" where
  \<comment> \<open>The vocabulary embedding goes through \<open>split_embedding\<close> with its two last
     arguments at their defaults; the entry read from the dictionary is a tensor.\<close>
  "split_weights_tp ext config weights a rank dt =
     rbind (cfg_get config ''num_attention_heads'') (\<lambda>num_heads.
     rbind (cfg_get config ''num_kv_heads'') (\<lambda>num_kv_heads.
     rbind (cfg_get config ''hidden_size'') (\<lambda>hidden_size.
     rbind (cfg_get config ''num_hidden_layers'') (\<lambda>num_hidden_layers.
     rbind (layers_loop (convert_layer ext num_heads num_kv_heads hidden_size a rank dt)
              [0..<nat num_hidden_layers] weights) (\<lambda>w1.
     rbind (dict_get w1 vocab_embedding_key) (\<lambda>emb.
     rbind (split_embedding_tensor emb (arg_tp_size a) rank False 0) (\<lambda>emb'.
     let w2 = dict_set vocab_embedding_key emb' w1 in
     rbind (dict_get w2 lm_head_key) (\<lambda>lm.
     rbind (split_matrix_tp lm (arg_tp_size a) rank 0) (\<lambda>lm'.
     Inr (dict_set lm_head_key lm' w2))))))))))"

section \<open>Checkpoint conversion\<close>

fun contains :: "string \<Rightarrow> string \<Rightarrow> bool" where
  \<comment> \<open>\<open>sub in s\<close>\<close>
  "contains sub [] = (sub = [])"
| "contains sub (c # cs) = (take (length sub) (c # cs) = sub \<or> contains sub cs)"

function replace :: "string \<Rightarrow> string \<Rightarrow> string \<Rightarrow> string" where
  \<comment> \<open>\<open>s.replace(old, new)\<close>: every occurrence, left to right, without overlap.\<close>
  "replace [] old new = (if old = [] then new else [])"
| "replace (c # cs) old new =
     (if old = [] then new @ c # replace cs old new
      else if take (length old) (c # cs) = old
        then new @ replace (drop (length old) (c # cs)) old new
      else c # replace cs old new)"
  by pat_completeness auto
termination
  by (relation "measure (\<lambda>(s, old, new). length s)") auto

definition rename_key :: "string \<Rightarrow> string" where
  "rename_key key0 =
     (let key1 =
        (if contains ''model.layers.'' key0 then
           replace (replace (replace (replace (replace (replace key0
             ''model.layers.'' ''transformer.layers.'')
             ''self_attn.'' ''attention.'')
             ''query_key_value.'' ''qkv.'')
             ''mlp.up_proj.'' ''mlp.fc.'')
             ''mlp.down_proj.'' ''mlp.proj.'')
             ''post_attention_layernorm.'' ''post_layernorm.''
         else key0);
          key2 = replace key1 ''model.embed_tokens.weight'' ''transformer.vocab_embedding.weight''
      in replace key2 ''model.final_layernorm.'' ''transformer.ln_f.'')"

fun rename_state_dict ::
  "('a, 'd) externals \<Rightarrow> 'd \<Rightarrow> (string \<times> 'a tensor) list \<Rightarrow> 'a dict \<Rightarrow> 'a dict" where
  \<comment> \<open>The first loop of \<open>convert_hf_weights\<close>, over the items of the state dictionary.\<close>
  "rename_state_dict ext dt [] weights = weights"
| "rename_state_dict ext dt ((key, v) # items) weights =
     rename_state_dict ext dt items (dict_set (rename_key key) (to_dtype ext dt v) weights)"

fun shuffle_all :: "string list \<Rightarrow> config \<Rightarrow> 'a dict \<Rightarrow> error + 'a dict" where
  \<comment> \<open>The second loop, over the keys of \<open>weights\<close>.\<close>
  "shuffle_all [] config weights = Inr weights"
| "shuffle_all (key # keys) config weights =
     (if contains ''qkv.'' key then
        rbind (dict_get weights key) (\<lambda>t.
        rbind (shuffle_qkv_weights t config) (\<lambda>t'.
        shuffle_all keys config (dict_set key t' weights)))
      else shuffle_all keys config weights)"

definition convert_hf_weights ::
  "('a::zero, 'd) externals \<Rightarrow> (string \<times> 'a tensor) list \<Rightarrow> config \<Rightarrow> args \<Rightarrow> int
     \<Rightarrow> error + 'a dict" where
  "convert_hf_weights ext hf_state_dict config a rank =
     rbind (str_dtype_to_torch ext (arg_dtype a)) (\<lambda>torch_dtype.
     let weights = rename_state_dict ext torch_dtype hf_state_dict [] in
     rbind (dict_get weights vocab_embedding_key) (\<lambda>emb.
     let weights1 = dict_set lm_head_key emb weights in
     rbind (shuffle_all (map fst weights1) config weights1) (\<lambda>weights2.
     split_weights_tp ext config weights2 a rank torch_dtype)))"

section \<open>Fixtures\<close>

definition plain_externals :: "(int, unit) externals" where
  \<comment> \<open>Externals for the examples: one dtype, a cast that changes nothing, and a stand-in
     for the quantization kernel.\<close>
  "plain_externals =
     \<lparr>cast = (\<lambda>_ x. x), str_dtype_to_torch = (\<lambda>_. Inr ()),
      symmetric_quantize = (\<lambda>t _. Inr (t, t))\<rparr>"

section \<open>Vocabulary of the statements\<close>

definition split_axis :: "'a tensor \<Rightarrow> int \<Rightarrow> int" where
  \<comment> \<open>The axis \<open>split\<close> cuts: the only one of a one-dimensional tensor, else \<open>dim\<close>.\<close>
  "split_axis v dim = (if length (shape v) = 1 then 0 else dim)"

definition kv_heads :: "config \<Rightarrow> int option" where
  \<comment> \<open>The key/value head count as the reassembler reads it, under either key.\<close>
  "kv_heads config =
     (case config ''num_kv_heads'' of Some v \<Rightarrow> Some v | None \<Rightarrow> config ''num_key_value_heads'')"

definition row_of :: "'a tensor \<Rightarrow> nat \<Rightarrow> 'a list" where
  \<comment> \<open>Row \<open>i\<close> along the leading dimension; a scalar for a bias.\<close>
  "row_of t i = (let w = prod_list (tl (shape t)) in take w (drop (i * w) (data t)))"

definition qkv_order :: "nat \<Rightarrow> nat \<Rightarrow> nat \<Rightarrow> nat list" where
  \<comment> \<open>For \<open>n\<close> groups of \<open>m\<close> query blocks, a key block and a value block of \<open>d\<close> rows
     each: the input rows of all query blocks in group order, then those of the key
     blocks, then those of the value blocks.\<close>
  "qkv_order n m d =
     concat (map (\<lambda>g. map (\<lambda>j. g * (m + 2) * d + j) [0..<m * d]) [0..<n]) @
     concat (map (\<lambda>g. map (\<lambda>j. g * (m + 2) * d + m * d + j) [0..<d]) [0..<n]) @
     concat (map (\<lambda>g. map (\<lambda>j. g * (m + 2) * d + (m + 1) * d + j) [0..<d]) [0..<n])"

definition fused_qkv_shape :: "nat list \<Rightarrow> nat \<Rightarrow> bool" where
  \<comment> \<open>A fused weight of \<open>rows\<close> rows and a trailing dimension above one, or a bias.\<close>
  "fused_qkv_shape s rows =
     (case s of [r] \<Rightarrow> r = rows | [r, h] \<Rightarrow> r = rows \<and> 1 < h | _ \<Rightarrow> False)"

definition group_rows :: "nat \<Rightarrow> nat \<Rightarrow> nat \<Rightarrow> nat \<Rightarrow> nat \<Rightarrow> 'a list \<Rightarrow> 'a list" where
  \<comment> \<open>Of each of \<open>n\<close> groups of \<open>b\<close> blocks of \<open>inner\<close> elements, the blocks
     \<open>[start, start + len)\<close>.\<close>
  "group_rows n b inner start len xs =
     concat (map (\<lambda>g. take (len * inner) (drop ((g * b + start) * inner) xs)) [0..<n])"

definition scenario_config :: config where
  \<comment> \<open>Four attention heads on two key/value heads, hidden size 8, so head dimension 2.\<close>
  "scenario_config =
     map_of [(''num_attention_heads'', 4), (''num_kv_heads'', 2), (''hidden_size'', 8)]"

text \<open>Running \<open>split\<close> for every rank: the shards, or the first error.\<close>

fun collect :: "(error + 'a) list \<Rightarrow> error + 'a list" where
  "collect [] = Inr []"
| "collect (r # rs) = rbind r (\<lambda>x. rbind (collect rs) (\<lambda>xs. Inr (x # xs)))"

definition shard_data :: "nat \<Rightarrow> nat \<Rightarrow> nat \<Rightarrow> nat \<Rightarrow> 'a list \<Rightarrow> 'a list" where
  \<comment> \<open>Rows \<open>[r * c, r * c + c)\<close> of each of the three blocks of \<open>h\<close> rows of width \<open>I\<close>.\<close>
  "shard_data h c I r xs =
     concat (map (\<lambda>j. take (c * I) (drop ((j * h + r * c) * I) xs)) [0..<3])"

definition layer_key :: "string \<Rightarrow> bool" where
  \<comment> \<open>The keys of the per-layer parameters: those that start with the layer prefix.\<close>
  "layer_key k = (take 19 k = ''transformer.layers.'')"

text \<open>A model of one layer, two heads and hidden size 2, converted for rank 1 of 2.\<close>

definition example_config :: config where
  "example_config =
     map_of [(''num_attention_heads'', 2), (''num_kv_heads'', 2), (''hidden_size'', 2),
             (''num_hidden_layers'', 1)]"

definition example_args :: args where
  "example_args =
     \<lparr>arg_tp_size = 2, arg_use_weight_only = False, arg_weight_only_precision = ''int8'',
      arg_dtype = ''float16''\<rparr>"

definition example_state_dict :: "(string \<times> int tensor) list" where
  "example_state_dict =
     [(''model.embed_tokens.weight'', Tensor [4, 2] [1, 2, 3, 4, 5, 6, 7, 8]),
      (''lm_head.weight'', Tensor [4, 2] [9, 9, 9, 9, 9, 9, 9, 9]),
      (''model.layers.0.self_attn.query_key_value.weight'',
         Tensor [6, 2] [1, 2, 3, 4, 5, 6, 7, 8, 9, 10, 11, 12]),
      (''model.layers.0.self_attn.query_key_value.bias'', Tensor [6] [1, 2, 3, 4, 5, 6]),
      (''model.layers.0.self_attn.dense.weight'', Tensor [2, 2] [1, 2, 3, 4]),
      (''model.layers.0.self_attn.dense.bias'', Tensor [2] [1, 2]),
      (''model.layers.0.mlp.up_proj.weight'', Tensor [4, 2] [1, 2, 3, 4, 5, 6, 7, 8]),
      (''model.layers.0.mlp.up_proj.bias'', Tensor [4] [1, 2, 3, 4]),
      (''model.layers.0.mlp.down_proj.weight'', Tensor [2, 4] [1, 2, 3, 4, 5, 6, 7, 8]),
      (''model.layers.0.mlp.down_proj.bias'', Tensor [2] [1, 2])]"

definition example_weights :: "int dict" where
  "example_weights =
     [(''transformer.vocab_embedding.weight'', Tensor [4, 2] [1, 2, 3, 4, 5, 6, 7, 8]),
      (''lm_head.weight'', Tensor [4, 2] [9, 9, 9, 9, 9, 9, 9, 9]),
      (''transformer.layers.0.attention.qkv.weight'',
         Tensor [6, 2] [1, 2, 3, 4, 5, 6, 7, 8, 9, 10, 11, 12]),
      (''transformer.layers.0.attention.qkv.bias'', Tensor [6] [1, 2, 3, 4, 5, 6]),
      (''transformer.layers.0.attention.dense.weight'', Tensor [2, 2] [1, 2, 3, 4]),
      (''transformer.layers.0.attention.dense.bias'', Tensor [2] [1, 2]),
      (''transformer.layers.0.mlp.fc.weight'', Tensor [4, 2] [1, 2, 3, 4, 5, 6, 7, 8]),
      (''transformer.layers.0.mlp.fc.bias'', Tensor [4] [1, 2, 3, 4]),
      (''transformer.layers.0.mlp.proj.weight'', Tensor [2, 4] [1, 2, 3, 4, 5, 6, 7, 8]),
      (''transformer.layers.0.mlp.proj.bias'', Tensor [2] [1, 2])]"

text \<open>
  A checkpoint of no layers whose embedding has five rows, and externals whose cast
  rounds down to even numbers.
\<close>

definition no_layer_config :: config where
  "no_layer_config =
     map_of [(''num_attention_heads'', 1), (''num_kv_heads'', 1), (''hidden_size'', 1),
             (''num_hidden_layers'', 0)]"

definition five_row_state_dict :: "(string \<times> int tensor) list" where
  "five_row_state_dict = [(''model.embed_tokens.weight'', Tensor [5, 1] [1, 2, 3, 4, 5])]"

definition rounding_externals :: "(int, unit) externals" where
  "rounding_externals =
     \<lparr>cast = (\<lambda>_ x. 2 * (x div 2)), str_dtype_to_torch = (\<lambda>_. Inr ()),
      symmetric_quantize = (\<lambda>t _. Inr (t, t))\<rparr>"

text \<open>
  The tensor of the source checkpoint that the renaming loop leaves under a key: the last
  item whose renamed key it is.
\<close>

fun renamed_lookup :: "(string \<times> 'a tensor) list \<Rightarrow> string \<Rightarrow> 'a tensor option" where
  "renamed_lookup [] k = None"
| "renamed_lookup ((key, v) # items) k =
     (case renamed_lookup items k of
        Some e \<Rightarrow> Some e
      | None \<Rightarrow> if rename_key key = k then Some v else None)"

section \<open>Properties\<close>

lemma rbind_simps [simp]: "rbind (Inl e) f = Inl e" "rbind (Inr x) f = f x"
  by (simp_all add: rbind_def)

lemma ceil_cover: fixes n s :: nat assumes "0 < s" "0 < n"
  shows "n \<le> s * ((n + s - 1) div s)"
proof -
  have "n + s - 1 = s * ((n + s - 1) div s) + (n + s - 1) mod s" by simp
  moreover have "(n + s - 1) mod s < s" using assms by simp
  ultimately show ?thesis using assms by linarith
qed

lemma ceil_tight: fixes n s :: nat assumes "0 < s" "0 < n"
  shows "s * ((n + s - 1) div s - 1) < n"
proof -
  have k: "0 < (n + s - 1) div s" using assms by (simp add: div_greater_zero_iff)
  have "s * ((n + s - 1) div s) \<le> n + s - 1" by simp
  moreover have "s * ((n + s - 1) div s - 1) + s = s * ((n + s - 1) div s)"
    using k by (metis Suc_pred' add.commute mult_Suc_right)
  ultimately show ?thesis using assms by linarith
qed

lemma chunk_len:
  fixes n s i :: nat
  assumes s: "0 < s" and n: "0 < n" and i: "i < (n + s - 1) div s"
  shows "(if i < (n + s - 1) div s - 1 then s else s - (s * ((n + s - 1) div s) - n))
         = min s (n - i * s)"
proof (cases "i < (n + s - 1) div s - 1")
  case True
  then have "Suc (Suc i) \<le> (n + s - 1) div s" by simp
  then have "s * Suc (Suc i) \<le> s * ((n + s - 1) div s)" by (rule mult_le_mono2)
  moreover have "s * ((n + s - 1) div s) \<le> n + s - 1" by simp
  moreover have "s * Suc (Suc i) = i * s + s + s" by (simp add: algebra_simps)
  ultimately have "i * s + s + s \<le> n + s - 1" by linarith
  then have "s \<le> n - i * s" using s by linarith
  with True show ?thesis by simp
next
  case False
  with i have e: "i = (n + s - 1) div s - 1" by simp
  have a: "n \<le> s * ((n + s - 1) div s)" by (rule ceil_cover [OF s n])
  have b: "s * i < n" unfolding e by (rule ceil_tight [OF s n])
  have c: "s * i + s = s * ((n + s - 1) div s)"
    using i e by (metis Suc_pred' add.commute mult_Suc_right less_nat_zero_code not_gr_zero)
  define K where "K = s * ((n + s - 1) div s)"
  define M where "M = i * s"
  have "n \<le> K" "M < n" "M + s = K"
    using a b c unfolding K_def M_def by (simp_all add: mult.commute)
  then have "s - (K - n) = min s (n - M)" by arith
  then have "s - (K - n) = min s (n - i * s)" unfolding M_def .
  then show ?thesis using False unfolding K_def by simp
qed

subsection \<open>The matrix splitter on sizes that do not divide\<close>

lemma chunk_pos:
  assumes tp: "1 < tp" and ne: "shape t \<noteq> []"
    and ax: "wrap_dim ax (length (shape t)) = Some d"
    and n: "0 < shape t ! d" 
  shows "chunk t tp ax =
     (let n = shape t ! d; c = (n + nat tp - 1) div nat tp; k = (n + c - 1) div c
      in Inr (map (\<lambda>i. narrow t d (i * c) (if i < k - 1 then c else c - (c * k - n))) [0..<k]))"
proof -
  define n where "n = shape t ! d"
  define c where "c = (n + nat tp - 1) div nat tp"
  define k where "k = (n + c - 1) div c"
  have n: "0 < n" using n unfolding n_def .
  have c: "0 < c" unfolding c_def using n tp by (simp add: div_greater_zero_iff)
  have k: "0 < k" unfolding k_def using n c by (simp add: div_greater_zero_iff)
  have m: "max k 1 = k" using k by simp
  have "chunk t tp ax = (if c = 0 \<and> n = 0 then Inr (replicate (nat tp) (narrow t d 0 0))
           else
             let k = max ((n + c - 1) div c) 1;
                 last_split_size = c - (c * k - n)
             in Inr (map (\<lambda>i. narrow t d (i * c)
                                  (if i < k - 1 then c else last_split_size))
                         [0..<k]))"
    unfolding chunk_def n_def c_def using tp ne ax by (simp only: Let_def option.case if_False) simp
  also have "\<dots> = Inr (map (\<lambda>i. narrow t d (i * c) (if i < k - 1 then c else c - (c * k - n))) [0..<k])"
    using n c unfolding Let_def k_def [symmetric] m by simp
  finally show ?thesis unfolding Let_def n_def [symmetric] c_def [symmetric] k_def [symmetric] .
qed

lemma split_pos:
  assumes tp: "1 < tp" and ne: "shape t \<noteq> []"
    and ax: "wrap_dim (split_axis t dim) (length (shape t)) = Some d"
    and n: "0 < shape t ! d" and idx: "0 \<le> idx"
  shows "split t tp idx dim =
     (let n = shape t ! d; c = (n + nat tp - 1) div nat tp; k = (n + c - 1) div c
      in if idx < int k then Inr (narrow t d (nat idx * c) (min c (n - nat idx * c)))
         else Inl IndexError)"
proof -
  define n where "n = shape t ! d"
  define c where "c = (n + nat tp - 1) div nat tp"
  define k where "k = (n + c - 1) div c"
  have n: "0 < n" using n unfolding n_def .
  have c: "0 < c" unfolding c_def using n tp by (simp add: div_greater_zero_iff)
  have ch: "chunk t tp (split_axis t dim) =
      Inr (map (\<lambda>i. narrow t d (i * c) (if i < k - 1 then c else c - (c * k - n))) [0..<k])"
    using chunk_pos [OF tp ne ax] n
    unfolding Let_def n_def [symmetric] c_def [symmetric] k_def [symmetric] by blast
  have sp: "split t tp idx dim = rbind (chunk t tp (split_axis t dim)) (\<lambda>cs. py_index cs idx)"
    using tp by (simp add: split_def split_axis_def)
  have "split t tp idx dim =
      (if idx < int k then Inr (narrow t d (nat idx * c) (min c (n - nat idx * c)))
       else Inl IndexError)"
  proof (cases "idx < int k")
    case True
    then have i: "nat idx < k" using idx by simp
    have "(if nat idx < k - 1 then c else c - (c * k - n)) = min c (n - nat idx * c)"
      using chunk_len [OF c n, of "nat idx"] i unfolding k_def by simp
    then show ?thesis using True idx i
      by (simp add: sp ch py_index_def Let_def)
  next
    case False
    then show ?thesis using idx
      by (simp add: sp ch py_index_def Let_def)
  qed
  then show ?thesis unfolding Let_def n_def [symmetric] c_def [symmetric] k_def [symmetric] .
qed

lemma split_any:
  assumes tp: "1 < tp" and ne: "shape t \<noteq> []"
    and ax: "wrap_dim (split_axis t dim) (length (shape t)) = Some d"
    and n: "0 < shape t ! d"
  shows "split t tp idx dim =
     (let n = shape t ! d; c = (n + nat tp - 1) div nat tp; k = (n + c - 1) div c;
          j = (if idx < 0 then idx + int k else idx)
      in if 0 \<le> j \<and> j < int k then Inr (narrow t d (nat j * c) (min c (n - nat j * c)))
         else Inl IndexError)"
proof -
  define n where "n = shape t ! d"
  define c where "c = (n + nat tp - 1) div nat tp"
  define k where "k = (n + c - 1) div c"
  define j where "j = (if idx < 0 then idx + int k else idx)"
  have n: "0 < n" using n unfolding n_def .
  have c: "0 < c" unfolding c_def using n tp by (simp add: div_greater_zero_iff)
  have ch: "chunk t tp (split_axis t dim) =
      Inr (map (\<lambda>i. narrow t d (i * c) (if i < k - 1 then c else c - (c * k - n))) [0..<k])"
    using chunk_pos [OF tp ne ax] n
    unfolding Let_def n_def [symmetric] c_def [symmetric] k_def [symmetric] by blast
  have sp: "split t tp idx dim = rbind (chunk t tp (split_axis t dim)) (\<lambda>cs. py_index cs idx)"
    using tp by (simp add: split_def split_axis_def)
  let ?cs = "map (\<lambda>i. narrow t d (i * c) (if i < k - 1 then c else c - (c * k - n))) [0..<k]"
  have pi: "py_index ?cs idx = (if 0 \<le> j \<and> j < int k then Inr (?cs ! nat j) else Inl IndexError)"
    unfolding py_index_def Let_def j_def by simp
  have "split t tp idx dim =
      (if 0 \<le> j \<and> j < int k then Inr (narrow t d (nat j * c) (min c (n - nat j * c)))
       else Inl IndexError)"
  proof (cases "0 \<le> j \<and> j < int k")
    case True
    then have i: "nat j < k" by linarith
    have "(if nat j < k - 1 then c else c - (c * k - n)) = min c (n - nat j * c)"
      using chunk_len [OF c n, of "nat j"] i unfolding k_def by simp
    then have "?cs ! nat j = narrow t d (nat j * c) (min c (n - nat j * c))"
      using i by simp
    then show ?thesis using True unfolding sp ch rbind_simps pi by simp
  next
    case False
    then have "\<not> (0 \<le> j \<and> j < int k)" .
    then show ?thesis unfolding sp ch rbind_simps pi by (simp only: if_False)
  qed
  then show ?thesis
    unfolding Let_def n_def [symmetric] c_def [symmetric] k_def [symmetric] j_def [symmetric] .
qed

text \<open>
  Claim C6, as amended. \<open>split\<close> makes no divisibility check. For \<open>tp_size > 1\<close> and a
  size \<open>n\<close> along the split axis that is not a multiple of \<open>tp_size\<close>, the axis is cut
  into \<open>k = ceil(n / c)\<close> pieces of \<open>c = ceil(n / tp_size)\<close> indices and \<open>idx\<close> is read
  as Python reads an index into them: \<open>j = idx + k\<close> for a negative \<open>idx\<close>, else
  \<open>j = idx\<close>. For \<open>0 \<le> j < k\<close> the result is piece \<open>j\<close>, the indices from \<open>j * c\<close>
  on, \<open>min c (n - j * c)\<close> of them; otherwise IndexError is raised.
\<close>

theorem split_uneven:
  assumes tp: "1 < tp" and ne: "shape t \<noteq> []"
    and ax: "wrap_dim (split_axis t dim) (length (shape t)) = Some d"
    and nd: "int (shape t ! d) mod tp \<noteq> 0"
  shows "split t tp idx dim =
     (let n = shape t ! d; c = (n + nat tp - 1) div nat tp; k = (n + c - 1) div c;
          j = (if idx < 0 then idx + int k else idx)
      in if 0 \<le> j \<and> j < int k then Inr (narrow t d (nat j * c) (min c (n - nat j * c)))
         else Inl IndexError)"
proof -
  have "0 < shape t ! d" using nd by (cases "shape t ! d") auto
  then show ?thesis by (rule split_any [OF tp ne ax])
qed

text \<open>
  Five rows on two ranks: rank 1 gets the last two rows, index \<open>-2\<close> the first three,
  and index 2 is out of range.
\<close>

theorem split_uneven_witness:
  "split (Tensor [5, 1] [1, 2, 3, 4, 5 :: nat]) 2 1 0 = Inr (Tensor [2, 1] [4, 5]) \<and>
   split (Tensor [5, 1] [1, 2, 3, 4, 5 :: nat]) 2 (- 2) 0 = Inr (Tensor [3, 1] [1, 2, 3]) \<and>
   split (Tensor [5, 1] [1, 2, 3, 4, 5 :: nat]) 2 2 0 = Inl IndexError"
  using split_uneven [of 2 "Tensor [5, 1] [1, 2, 3, 4, 5 :: nat]" 0 0 1]
    split_uneven [of 2 "Tensor [5, 1] [1, 2, 3, 4, 5 :: nat]" 0 0 "- 2"]
    split_uneven [of 2 "Tensor [5, 1] [1, 2, 3, 4, 5 :: nat]" 0 0 2]
  by (simp add: split_axis_def wrap_dim_def narrow_def Let_def)

text \<open>
  The pieces need not be \<open>tp_size\<close> many: six elements on four ranks are three pieces of
  two, and rank 3 gets none.
\<close>

lemma split_six_on_four:
  "split (Tensor [6] [1, 2, 3, 4, 5, 6 :: nat]) 4 2 0 = Inr (Tensor [2] [5, 6]) \<and>
   split (Tensor [6] [1, 2, 3, 4, 5, 6 :: nat]) 4 3 0 = Inl IndexError"
  by (simp add: split_def chunk_def wrap_dim_def py_index_def narrow_def)

text \<open>
  Claim C6 as stated fails: three elements on two ranks are split two and one, and no
  error is raised.
\<close>

theorem split_uneven_counterexample:
  "split (Tensor [3] [10, 20, 30 :: nat]) 2 0 0 = Inr (Tensor [2] [10, 20]) \<and>
   split (Tensor [3] [10, 20, 30 :: nat]) 2 1 0 = Inr (Tensor [1] [30])"
  by (simp add: split_def chunk_def wrap_dim_def py_index_def narrow_def)

subsection \<open>The quantization packer without quantization\<close>

text \<open>
  Claim C5, as amended. With weight-only quantization disabled,
  \<open>get_tllm_linear_weight\<close> returns the mapping whose entry \<open>prefix + ".weight"\<close> is the
  input weight itself, not transposed, followed by \<open>prefix + ".bias"\<close> mapped to the bias
  exactly when a bias is given.
\<close>

theorem get_tllm_linear_weight_plain:
  "get_tllm_linear_weight ext weight prefix bias False qt =
     Inr ((prefix @ ''.weight'', weight) #
          (case bias of None \<Rightarrow> [] | Some b \<Rightarrow> [(prefix @ ''.bias'', b)]))"
  by (simp add: get_tllm_linear_weight_def split: option.split)

theorem get_tllm_linear_weight_plain_witness:
  "get_tllm_linear_weight plain_externals (Tensor [2, 3] [1, 2, 3, 4, 5, 6]) ''fc''
     (Some (Tensor [2] [7, 8])) False None =
   Inr [(''fc.weight'', Tensor [2, 3] [1, 2, 3, 4, 5, 6]), (''fc.bias'', Tensor [2] [7, 8])]"
  using get_tllm_linear_weight_plain
    [of plain_externals "Tensor [2, 3] [1, 2, 3, 4, 5, 6]" "''fc''" "Some (Tensor [2] [7, 8])" None]
  by simp

text \<open>
  Claim C5 as stated fails: for a 2 by 3 weight the stored entry is the weight as given,
  which is not its transpose.
\<close>

theorem get_tllm_linear_weight_transposed_counterexample:
  "rbind (get_tllm_linear_weight plain_externals (Tensor [2, 3] [1, 2, 3, 4, 5, 6]) ''fc''
            None False None) (\<lambda>results. dict_get results ''fc.weight'')
     = Inr (Tensor [2, 3] [1, 2, 3, 4, 5, 6]) \<and>
   transpose2 (Tensor [2, 3] [1, 2, 3, 4, 5, 6 :: int]) = Inr (Tensor [3, 2] [1, 4, 2, 5, 3, 6])"
proof -
  have "transpose2 (Tensor [2, 3] [1, 2, 3, 4, 5, 6 :: int]) = Inr (Tensor [3, 2] [1, 4, 2, 5, 3, 6])"
    by code_simp
  then show ?thesis
    by (simp add: get_tllm_linear_weight_def dict_get_def)
qed

subsection \<open>The embedding splitter\<close>

lemma py_index_not_assert: "py_index xs i \<noteq> Inl AssertionError"
  by (simp add: py_index_def Let_def)

lemma chunk_not_assert: "chunk t c d \<noteq> Inl AssertionError"
  by (simp add: chunk_def Let_def split: option.split)

lemma split_not_assert: "split v tp idx dim \<noteq> Inl AssertionError"
  using chunk_not_assert [of v tp] py_index_not_assert
  by (auto simp: split_def rbind_def split: sum.split)

text \<open>
  Claim C10. \<open>split_embedding\<close> raises AssertionError exactly when parallel embedding is
  enabled, the sharding dimension is 0, the vocabulary size is a multiple of \<open>tp_size\<close>
  and the hidden size is not: the hidden size is checked although the vocabulary axis is
  the one split, and nothing is asserted when the vocabulary size does not divide or the
  sharding dimension is 1.
\<close>

theorem split_embedding_assertion:
  "split_embedding (Some param) tp_size tp_rank use_parallel_embedding sharding_dim
     = Inl AssertionError
   \<longleftrightarrow>
   use_parallel_embedding \<and> sharding_dim = 0 \<and> tp_size \<noteq> 0 \<and>
   (\<exists>vocab_size hidden_size. shape param = [vocab_size, hidden_size] \<and>
      int vocab_size mod tp_size = 0 \<and> int hidden_size mod tp_size \<noteq> 0)"
proof (cases "\<exists>v h. shape param = [v, h]")
  case False
  then have "split_embedding_with None param tp_size tp_rank use_parallel_embedding sharding_dim
      \<noteq> Inl AssertionError"
    by (auto simp: split_embedding_with_def split: list.split)
  then show ?thesis using False
    by (auto simp: split_embedding_def split_embedding_tensor_def rbind_def split: sum.split)
next
  case True
  then obtain v h where s: "shape param = [v, h]" by blast
  show ?thesis
    using split_not_assert [of param tp_size tp_rank sharding_dim]
    by (auto simp: split_embedding_def split_embedding_tensor_def split_embedding_with_def s
        py_mod_def rbind_def split: sum.split)
qed

theorem split_embedding_assertion_witness:
  "split_embedding (Some (Tensor [4, 3] (replicate 12 (0::int)))) 2 0 True 0 = Inl AssertionError"
  using split_embedding_assertion [of "Tensor [4, 3] (replicate 12 (0::int))" 2 0 True 0]
  by simp

text \<open>
  Where the vocabulary size is not a multiple of \<open>tp_size\<close>, the padding branch calls
  \<open>pad_vocab_size\<close>, a name the module does not bind.
\<close>

lemma split_embedding_unbound:
  assumes "shape param = [v, h]" "tp \<noteq> 0" "int v mod tp \<noteq> 0"
  shows "split_embedding (Some param) tp r True 0 = Inl NameError"
  using assms
  by (simp add: split_embedding_def split_embedding_tensor_def split_embedding_with_def py_mod_def)

text \<open>
  Claim C4, on the code: for a vocabulary of 30001 rows and \<open>tp_size\<close> 8 the embedding is
  not padded to 30008 rows and split; the call raises NameError.
\<close>

theorem split_embedding_30001:
  "split_embedding (Some (Tensor [30001, 1] (replicate 30001 (0::int)))) 8 7 True 0
     = Inl NameError"
  by (rule split_embedding_unbound [of _ 30001 1]) simp_all

subsection \<open>The head-group reassembler\<close>

lemma infer_size_nat:
  "infer_size (map int s) k = (if k = prod_list s then Inr s else Inl RuntimeError)"
proof -
  have a: "\<not> list_ex (\<lambda>d. d < - 1) (map int s)" by (induction s) auto
  have b: "count_list (map int s) (- 1) = 0" by (induction s) auto
  have c: "filter (\<lambda>d. d \<noteq> - 1) (map int s) = map int s" by (induction s) auto
  have d: "- 1 \<notin> set (map int s)" by auto
  have e: "map nat (map int s) = s" by (induction s) auto
  show ?thesis unfolding infer_size_def Let_def using a b c d e by (simp del: set_map)
qed

lemma infer_size_lead:
  "infer_size (- 1 # map int s) k =
     (if 0 < prod_list s \<and> k mod prod_list s = 0 then Inr (k div prod_list s # s)
      else Inl RuntimeError)"
proof -
  have a: "\<not> list_ex (\<lambda>d. d < - 1) (map int s)" by (induction s) auto
  have b: "count_list (map int s) (- 1) = 0" by (induction s) auto
  have c: "filter (\<lambda>d. d \<noteq> - 1) (map int s) = map int s" by (induction s) auto
  have e: "map nat (map int s) = s" by (induction s) auto
  have f: "map (\<lambda>d. if d = - 1 then x else nat d) (map int s) = s" for x by (induction s) auto
  show ?thesis unfolding infer_size_def Let_def using a b c e f by simp
qed

lemma reshape_nat:
  "reshape t (map int s) = (if numel t = prod_list s then Inr (Tensor s (data t)) else Inl RuntimeError)"
  by (simp add: reshape_def infer_size_nat)

lemma reshape_lead:
  "reshape t (- 1 # map int s) =
     (if 0 < prod_list s \<and> numel t mod prod_list s = 0
      then Inr (Tensor (numel t div prod_list s # s) (data t)) else Inl RuntimeError)"
  by (simp add: reshape_def infer_size_lead)

lemma take_rows:
  "take (k * w) (drop (a * w) xs) = concat (map (\<lambda>j. take w (drop ((a + j) * w) xs)) [0..<k])"
proof (induction k)
  case 0
  show ?case by simp
next
  case (Suc k)
  have "take (Suc k * w) (drop (a * w) xs)
      = take (k * w) (drop (a * w) xs) @ take w (drop (k * w) (drop (a * w) xs))"
  proof -
    have "Suc k * w = k * w + w" by simp
    then show ?thesis by (simp only: take_add)
  qed
  also have "\<dots> = concat (map (\<lambda>j. take w (drop ((a + j) * w) xs)) [0..<k])
       @ take w (drop ((a + k) * w) xs)"
    unfolding Suc by (simp add: algebra_simps)
  finally show ?case by simp
qed


lemma narrow_axis1:
  "narrow (Tensor [n, b, d, h] xs) (Suc 0) start len
     = Tensor [n, len, d, h] (group_rows n b (d * h) start len xs)"
  by (simp add: narrow_def group_rows_def Let_def)

lemma length_group_rows: "length (group_rows n b inner start len xs) \<le> n * (len * inner)"
proof -
  have "length (concat (map (\<lambda>g. take l (f g)) gs)) \<le> length gs * l" for l gs and f :: "nat \<Rightarrow> 'a list"
    by (induction gs) (auto simp: add.commute)
  from this [of "len * inner" _ "[0..<n]"] show ?thesis by (simp add: group_rows_def)
qed

lemma cat3_axis0:
  assumes "length x \<le> a * (d * h)" "length y \<le> b * (d * h)" "length z \<le> c * (d * h)"
  shows "cat [Tensor [a, d, h] x, Tensor [b, d, h] y, Tensor [c, d, h] z] 0
       = Inr (Tensor [a + b + c, d, h] (x @ y @ z))"
  using assms by (simp add: cat_def)

lemma concat_map_concat:
  "concat (map r (concat xss)) = concat (map (\<lambda>xs. concat (map r xs)) xss)"
  by (induction xss) auto

lemma group_rows_as_rows:
  "group_rows n b (d * h) start len xs =
     concat (map (\<lambda>i. take h (drop (i * h) xs))
       (concat (map (\<lambda>g. map (\<lambda>j. g * b * d + start * d + j) [0..<len * d]) [0..<n])))"
proof -
  have "take (len * (d * h)) (drop ((g * b + start) * (d * h)) xs)
      = concat (map (\<lambda>i. take h (drop (i * h) xs)) (map (\<lambda>j. g * b * d + start * d + j) [0..<len * d]))"
    for g
    using take_rows [of "len * d" h "(g * b + start) * d" xs]
    by (simp add: algebra_simps comp_def)
  then show ?thesis
    by (simp add: group_rows_def concat_map_concat comp_def)
qed


lemma shuffle_result:
  assumes nh: "config ''num_attention_heads'' = Some num_heads"
    and kv: "kv_heads config = Some num_kv_heads"
    and hs: "config ''hidden_size'' = Some hidden_size"
    and pos: "1 \<le> num_heads" "1 \<le> num_kv_heads" "num_heads \<le> hidden_size"
    and m: "m = nat (num_heads div num_kv_heads)" and n: "n = nat num_kv_heads"
    and d: "d = nat (hidden_size div num_heads)"
    and sh: "shape t = [(m + 2) * n * d, h] \<and> 1 < h \<or> shape t = [(m + 2) * n * d] \<and> h = 1"
  shows "shuffle_qkv_weights t config =
     Inr (Tensor (shape t) (concat (map (\<lambda>i. take h (drop (i * h) (data t))) (qkv_order n m d))))"
proof -
  let ?xs = "data t"
  let ?N = "(m + 2) * n * d"
  have n0: "0 < n" using pos n by simp
  have d0: "0 < d" using pos d by (simp add: pos_imp_zdiv_pos_iff)
  have h0: "0 < h" using sh by auto
  have N2: "2 \<le> ?N" using n0 d0
    by (metis One_nat_def Suc_leI le_add2 mult.right_neutral mult_le_mono mult.assoc mult_pos_pos)
  have c1: "cfg_get config ''num_attention_heads'' = Inr num_heads" by (simp add: cfg_get_def nh)
  have kvn: "num_kv_heads = int n" using pos n by simp
  have c2: "(if config ''num_kv_heads'' \<noteq> None then cfg_get config ''num_kv_heads''
            else cfg_get config ''num_key_value_heads'') = Inr (int n)"
    using kv kvn by (auto simp: kv_heads_def cfg_get_def split: option.splits)
  have c3: "py_floordiv num_heads (int n) = Inr (int m)"
    using pos m kvn by (simp add: py_floordiv_def pos_imp_zdiv_nonneg_iff)
  have c4: "cfg_get config ''hidden_size'' = Inr hidden_size" by (simp add: cfg_get_def hs)
  have c5: "py_floordiv hidden_size num_heads = Inr (int d)"
    using pos d by (simp add: py_floordiv_def pos_imp_zdiv_nonneg_iff)
  define w1 where "w1 = Tensor [?N, h] ?xs"
  have s1: "(if length (shape t) < 2 then unsqueeze t 1 else Inr t) = Inr w1"
    using sh by (auto simp: unsqueeze_def w1_def intro: tensor.expand)
  have s2: "reshape w1 [int n, int m + 2, int d, int (last (shape w1))]
      = Inr (Tensor [n, m + 2, d, h] ?xs)"
    using reshape_nat [of w1 "[n, m + 2, d, h]"]
    by (simp add: w1_def numel_def algebra_simps)
  define q where "q = group_rows n (m + 2) (d * h) 0 m ?xs"
  define k where "k = group_rows n (m + 2) (d * h) m 1 ?xs"
  define v where "v = group_rows n (m + 2) (d * h) (m + 1) 1 ?xs"
  have s3: "slice_dim (Tensor [n, m + 2, d, h] ?xs) 1 0 (- 2) = Inr (Tensor [n, m, d, h] q)"
    by (simp add: slice_dim_def slice_bound_def narrow_axis1 q_def)
  have s4: "select_dim (Tensor [n, m + 2, d, h] ?xs) 1 (- 2) = Inr (Tensor [n, d, h] k)"
    by (simp add: select_dim_def narrow_axis1 k_def nat_add_distrib)
  have s5: "select_dim (Tensor [n, m + 2, d, h] ?xs) 1 (- 1) = Inr (Tensor [n, d, h] v)"
    by (simp add: select_dim_def narrow_axis1 v_def nat_add_distrib)
  have s6: "reshape (Tensor [n, m, d, h] q)
        [- 1, int (shape (Tensor [n, m, d, h] q) ! 2), int (shape (Tensor [n, m, d, h] q) ! 3)]
      = Inr (Tensor [n * m, d, h] q)"
    using reshape_lead [of "Tensor [n, m, d, h] q" "[d, h]"] d0 h0
    by (simp add: numel_def)
  have lq: "length q \<le> n * m * (d * h)"
    using length_group_rows [of n "m + 2" "d * h" 0 m ?xs] by (simp add: q_def algebra_simps)
  have lk: "length k \<le> n * (d * h)"
    using length_group_rows [of n "m + 2" "d * h" m 1 ?xs] by (simp add: k_def)
  have lv: "length v \<le> n * (d * h)"
    using length_group_rows [of n "m + 2" "d * h" "m + 1" 1 ?xs] by (simp add: v_def)
  have s7: "cat [Tensor [n * m, d, h] q, Tensor [n, d, h] k, Tensor [n, d, h] v] 0
      = Inr (Tensor [n * m + n + n, d, h] (q @ k @ v))"
    by (rule cat3_axis0 [OF lq lk lv])
  have s8: "reshape (Tensor [n * m + n + n, d, h] (q @ k @ v))
        [- 1, int (shape (Tensor [n * m + n + n, d, h] (q @ k @ v)) ! 2)]
      = Inr (Tensor [?N, h] (q @ k @ v))"
    using reshape_lead [of "Tensor [n * m + n + n, d, h] (q @ k @ v)" "[h]"] h0
    by (simp add: numel_def algebra_simps)
  have s9: "shape (squeeze (Tensor [?N, h] (q @ k @ v))) = shape t"
    using sh N2 by (auto simp: squeeze_def)
  have dat: "q @ k @ v = concat (map (\<lambda>i. take h (drop (i * h) ?xs)) (qkv_order n m d))"
    unfolding q_def k_def v_def group_rows_as_rows qkv_order_def
    by (simp add: algebra_simps)
  have "shuffle_qkv_weights t config = Inr (squeeze (Tensor [?N, h] (q @ k @ v)))"
    by (simp only: shuffle_qkv_weights_def c1 c2 c3 c4 c5 rbind_simps Let_def
          s1 s2 s3 s4 s5 s6 s7 s8 s9 if_True refl simp_thms)
  also have "squeeze (Tensor [?N, h] (q @ k @ v)) = Tensor (shape t) (q @ k @ v)"
    using s9 by (simp add: squeeze_def)
  finally show ?thesis by (simp add: dat)
qed

lemma mset_blocks: "(\<Sum>g\<leftarrow>[0..<n]. mset [g * b..<g * b + b]) = mset [0..<n * b]"
proof (induction n)
  case 0
  show ?case by simp
next
  case (Suc n)
  have "[0..<n * b + b] = [0..<n * b] @ [n * b..<n * b + b]"
    by (rule upt_add_eq_append) simp
  then show ?case using Suc by (simp add: add.commute)
qed

lemma shifted_upt: "map (\<lambda>j. a + j) [0..<k] = [a..<a + k]"
  by (induction k) auto

lemma upt_three:
  "[a..<a + (x + y + z)] = [a..<a + x] @ [a + x..<a + x + y] @ [a + x + y..<a + x + y + z]"
proof -
  have "[a..<a + x + y + z] = [a..<a + x + y] @ [a + x + y..<a + x + y + z]"
    by (rule upt_add_eq_append) simp
  moreover have "[a..<a + x + y] = [a..<a + x] @ [a + x..<a + x + y]"
    by (rule upt_add_eq_append) simp
  ultimately show ?thesis by (simp add: add.assoc)
qed

lemma group_block:
  "mset (map (\<lambda>j. g * (m + 2) * d + j) [0..<m * d]) +
   mset (map (\<lambda>j. g * (m + 2) * d + m * d + j) [0..<d]) +
   mset (map (\<lambda>j. g * (m + 2) * d + (m + 1) * d + j) [0..<d])
   = mset [g * ((m + 2) * d)..<g * ((m + 2) * d) + (m + 2) * d]"
proof -
  let ?a = "g * ((m + 2) * d)"
  have e: "g * (m + 2) * d = ?a" by (simp only: mult.assoc)
  have f: "(m + 1) * d = m * d + d" by simp
  have 1: "map (\<lambda>j. g * (m + 2) * d + j) [0..<m * d] = [?a..<?a + m * d]"
    unfolding e by (rule shifted_upt)
  have 2: "map (\<lambda>j. g * (m + 2) * d + m * d + j) [0..<d] = [?a + m * d..<?a + m * d + d]"
    unfolding e by (rule shifted_upt)
  have 3: "map (\<lambda>j. g * (m + 2) * d + (m + 1) * d + j) [0..<d]
      = [?a + m * d + d..<?a + m * d + d + d]"
    unfolding e f add.assoc [symmetric] by (rule shifted_upt)
  have "(m + 2) * d = m * d + d + d" by (simp add: algebra_simps)
  then have "[?a..<?a + (m + 2) * d] = [?a..<?a + m * d] @ [?a + m * d..<?a + m * d + d]
        @ [?a + m * d + d..<?a + m * d + d + d]"
    using upt_three [of ?a "m * d" d d] by (simp only: add.assoc)
  then show ?thesis unfolding 1 2 3 by simp
qed

lemma qkv_order_perm: "mset (qkv_order n m d) = mset [0..<(m + 2) * n * d]"
proof -
  have "mset (qkv_order n m d) =
      (\<Sum>g\<leftarrow>[0..<n]. mset (map (\<lambda>j. g * (m + 2) * d + j) [0..<m * d]) +
         mset (map (\<lambda>j. g * (m + 2) * d + m * d + j) [0..<d]) +
         mset (map (\<lambda>j. g * (m + 2) * d + (m + 1) * d + j) [0..<d]))"
    by (simp add: qkv_order_def mset_concat comp_def sum_list_addf add.assoc)
  also have "\<dots> = (\<Sum>g\<leftarrow>[0..<n]. mset [g * ((m + 2) * d)..<g * ((m + 2) * d) + (m + 2) * d])"
    by (simp only: group_block)
  also have "\<dots> = mset [0..<n * ((m + 2) * d)]" by (rule mset_blocks)
  also have "n * ((m + 2) * d) = (m + 2) * n * d" by (simp only: ac_simps)
  finally show ?thesis .
qed

lemma scenario_facts:
  "scenario_config ''num_attention_heads'' = Some 4"
  "kv_heads scenario_config = Some 2"
  "scenario_config ''hidden_size'' = Some 8"
  by (simp_all add: scenario_config_def kv_heads_def)

lemma scenario_geometry:
  "(1::int) \<le> 4" "(1::int) \<le> 2" "(4::int) \<le> 8"
  "(2::nat) = nat (4 div 2)" "(2::nat) = nat 2" "(2::nat) = nat (8 div 4)"
  by simp_all

text \<open>
  Claim C7. For a configuration with positive head counts and head dimension, a fused
  weight whose leading dimension is \<open>(num_q_per_kv + 2) * num_kv_heads * head_dim\<close> and
  whose trailing dimension is above one, or a bias of that length, comes back with the
  shape it had: the assertion on the shapes does not fire.
\<close>

theorem shuffle_qkv_weights_shape:
  assumes "config ''num_attention_heads'' = Some num_heads"
    and "kv_heads config = Some num_kv_heads"
    and "config ''hidden_size'' = Some hidden_size"
    and "1 \<le> num_heads" "1 \<le> num_kv_heads" "num_heads \<le> hidden_size"
    and "m = nat (num_heads div num_kv_heads)" and "n = nat num_kv_heads"
    and "d = nat (hidden_size div num_heads)"
    and "fused_qkv_shape (shape t) ((m + 2) * n * d)"
  shows "\<exists>t'. shuffle_qkv_weights t config = Inr t' \<and> shape t' = shape t"
proof -
  from assms(10) obtain h where
    "shape t = [(m + 2) * n * d, h] \<and> 1 < h \<or> shape t = [(m + 2) * n * d] \<and> h = 1"
    by (auto simp: fused_qkv_shape_def split: list.splits)
  from shuffle_result [OF assms(1-9) this] show ?thesis by simp
qed

text \<open>A bias of sixteen entries in the scenario configuration.\<close>

theorem shuffle_qkv_weights_shape_witness:
  "\<exists>t'. shuffle_qkv_weights (Tensor [16] [0..<16]) scenario_config = Inr t' \<and>
        shape t' = shape (Tensor [16] [0..<16])"
proof (rule shuffle_qkv_weights_shape [OF scenario_facts, of 2 2 2])
  show "fused_qkv_shape (shape (Tensor [16] [0..<16])) ((2 + 2) * 2 * 2)"
    by (simp add: fused_qkv_shape_def)
qed simp_all

text \<open>
  Claim C1, as amended. Under the same conditions the result is a row permutation of the
  input: its rows are the input rows in the order \<open>qkv_order\<close>, all query rows in group
  order, then the key rows, then the value rows, and that order lists every row index
  once. In the scenario of four attention heads, two key/value heads and head dimension
  2 the fused tensor has 16 rows, and rows labelled 0 to 15 come back in the order
  0 1 2 3, 8 9 10 11, 4 5, 12 13, 6 7, 14 15.
\<close>

theorem shuffle_qkv_weights_order:
  assumes "config ''num_attention_heads'' = Some num_heads"
    and "kv_heads config = Some num_kv_heads"
    and "config ''hidden_size'' = Some hidden_size"
    and "1 \<le> num_heads" "1 \<le> num_kv_heads" "num_heads \<le> hidden_size"
    and "m = nat (num_heads div num_kv_heads)" and "n = nat num_kv_heads"
    and "d = nat (hidden_size div num_heads)"
    and "fused_qkv_shape (shape t) ((m + 2) * n * d)"
  shows "shuffle_qkv_weights t config =
           Inr (Tensor (shape t) (concat (map (row_of t) (qkv_order n m d)))) \<and>
         mset (qkv_order n m d) = mset [0..<(m + 2) * n * d]"
proof -
  from assms(10) obtain h where
    h: "shape t = [(m + 2) * n * d, h] \<and> 1 < h \<or> shape t = [(m + 2) * n * d] \<and> h = 1"
    by (auto simp: fused_qkv_shape_def split: list.splits)
  then have "prod_list (tl (shape t)) = h" by auto
  then have "row_of t = (\<lambda>i. take h (drop (i * h) (data t)))"
    by (simp add: row_of_def fun_eq_iff)
  with shuffle_result [OF assms(1-9) h] qkv_order_perm [of n m d] show ?thesis by simp
qed

theorem shuffle_qkv_weights_order_witness:
  "shuffle_qkv_weights (Tensor [16, 8] (concat (map (replicate 8) [0..<16]))) scenario_config =
     Inr (Tensor [16, 8]
       (concat (map (replicate 8) [0, 1, 2, 3, 8, 9, 10, 11, 4, 5, 12, 13, 6, 7, 14, 15])))"
proof -
  let ?t = "Tensor [16, 8] (concat (map (replicate 8) [0..<16 :: nat]))"
  have r: "concat (map (row_of ?t) (qkv_order 2 2 2)) =
      concat (map (replicate 8) [0, 1, 2, 3, 8, 9, 10, 11, 4, 5, 12, 13, 6, 7, 14, 15])"
    by code_simp
  have f: "fused_qkv_shape (shape ?t) ((2 + 2) * 2 * 2)"
    by (simp add: fused_qkv_shape_def)
  have "shuffle_qkv_weights ?t scenario_config =
      Inr (Tensor (shape ?t) (concat (map (row_of ?t) (qkv_order 2 2 2))))"
    using shuffle_qkv_weights_order [OF scenario_facts scenario_geometry f] by (rule conjunct1)
  then show ?thesis unfolding r by (simp only: tensor.sel)
qed
text \<open>
  Claim C1 as stated fails in its scenario: with four attention heads, two key/value
  heads, hidden size 8 and head dimension 2 a tensor of ten rows labelled 0 to 9 is not a
  fused QKV tensor (that has 16 rows), and the reassembler rejects it.
\<close>

theorem shuffle_qkv_weights_ten_rows_counterexample:
  "shuffle_qkv_weights (Tensor [10, 8] (concat (map (replicate 8) [0..<10 :: nat])))
     scenario_config = Inl RuntimeError"
  by code_simp

text \<open>The twelve rows of the shape \<open>[4 * 2 + 2 * 2, 8]\<close> are rejected as well.\<close>

lemma shuffle_qkv_weights_twelve_rows:
  "shuffle_qkv_weights (Tensor [12, 8] (concat (map (replicate 8) [0..<12 :: nat])))
     scenario_config = Inl RuntimeError"
  by code_simp

text \<open>
  The trailing dimension has to be above one: a fused weight of shape \<open>[3, 1]\<close>, for one
  head and hidden size 1, is squeezed to shape \<open>[3]\<close> and the assertion fires.
\<close>

lemma shuffle_qkv_weights_trailing_one:
  "shuffle_qkv_weights (Tensor [3, 1] [0, 1, 2 :: nat])
     (map_of [(''num_attention_heads'', 1), (''num_kv_heads'', 1), (''hidden_size'', 1)])
   = Inl AssertionError"
  by code_simp

subsection \<open>Partition completeness\<close>

lemma collect_Inr: "collect (map Inr xs) = Inr xs"
  by (induction xs) auto

lemma concat_blocks:
  assumes "length xs = k * b"
  shows "concat (map (\<lambda>j. take b (drop (j * b) xs)) [0..<k]) = xs"
  using take_rows [of k b 0 xs] assms by simp

lemma length_concat_blocks:
  assumes "\<And>i. i < k \<Longrightarrow> length (f i) = b"
  shows "length (concat (map f [0..<k])) = k * b"
  using assms by (induction k) auto

lemma nth_block:
  assumes len: "\<And>i. i < k \<Longrightarrow> length (f i) = b" and j: "j < k"
  shows "take b (drop (j * b) (concat (map f [0..<k]))) = f j"
proof -
  have "[0..<k] = [0..<j] @ j # [Suc j..<k]"
    using j by (metis less_imp_le_nat upt_add_eq_append upt_conv_Cons le_add_diff_inverse zero_le add_0)
  then have "concat (map f [0..<k]) = concat (map f [0..<j]) @ f j @ concat (map f [Suc j..<k])"
    by simp
  moreover have "length (concat (map f [0..<j])) = j * b"
    using len j by (intro length_concat_blocks) simp
  moreover have "length (f j) = b" using len j by simp
  ultimately show ?thesis by simp
qed

lemma prod_list_split:
  assumes "d < length s"
  shows "prod_list s = prod_list (take d s) * (s ! d * prod_list (drop (Suc d) s))"
proof -
  have "s = take d s @ s ! d # drop (Suc d) s" using assms by (rule id_take_nth_drop)
  then have "prod_list s = prod_list (take d s @ s ! d # drop (Suc d) s)" by simp
  then show ?thesis by (simp del: append_take_drop_id)
qed

lemma prod_list_drop:
  assumes "d < length s"
  shows "prod_list (drop d s) = s ! d * prod_list (drop (Suc d) s)"
  using assms by (simp add: Cons_nth_drop_Suc [symmetric])


lemma cat_same_shape:
  assumes ne: "ts \<noteq> []" and sh: "\<And>t. t \<in> set ts \<Longrightarrow> shape t = s"
    and s0: "s \<noteq> [0]" and d: "d < length s"
  shows "cat ts d =
     Inr (Tensor (s[d := length ts * s ! d])
       (concat (map (\<lambda>j. concat (map (\<lambda>t. take (prod_list (drop d s))
                                            (drop (j * prod_list (drop d s)) (data t))) ts))
                    [0..<prod_list (take d s)])))"
proof -
  obtain u us where ts: "ts = u # us" using ne by (cases ts) auto
  have f: "filter (\<lambda>t. shape t \<noteq> [0]) (u # us) = u # us"
    using sh s0 unfolding ts by (auto simp: filter_id_conv)
  have su: "shape u = s" using sh ts by simp
  have a: "list_ex (\<lambda>t. shape t = []) (u # us) = False"
    using sh d ts by (auto simp: list_ex_iff)
  have b: "list_all (\<lambda>t. (shape t)[d := 0] = s[d := 0]) us = True"
    using sh ts by (auto simp: list_all_iff)
  have c: "sum_list (map (\<lambda>t. shape t ! d) (u # us)) = length (u # us) * s ! d"
  proof -
    have "map (\<lambda>t. shape t ! d) ts = map (\<lambda>t. s ! d) ts" using sh by (intro map_cong) auto
    then have "sum_list (map (\<lambda>t. shape t ! d) ts) = sum_list (map (\<lambda>t. s ! d) ts)"
      by (rule arg_cong)
    also have "\<dots> = length ts * s ! d" by (simp add: sum_list_triv)
    finally show ?thesis unfolding ts .
  qed
  have e: "map (\<lambda>t. let b = prod_list (drop d (shape t)) in take b (drop (j * b) (data t))) (u # us)
      = map (\<lambda>t. take (prod_list (drop d s)) (drop (j * prod_list (drop d s)) (data t))) (u # us)" for j
    using sh unfolding ts by (intro map_cong) (auto simp: Let_def)
  have d': "(\<not> d < length s) = False" using d by simp
  show ?thesis
    unfolding cat_def ts
    apply (simp only: f list.case a if_False e c list.distinct)
    apply (simp only: Let_def su d' b if_True if_False)
    done
qed


lemma wrap_dim_less: "wrap_dim a n = Some d \<Longrightarrow> d < n"
  by (auto simp: wrap_dim_def split: if_splits)

lemma wf_length:
  assumes "well_formed t" "d < length (shape t)"
  shows "length (data t) =
     prod_list (take d (shape t)) * (shape t ! d * prod_list (drop (Suc d) (shape t)))"
  using assms prod_list_split [of d "shape t"] by (simp add: well_formed_def)

lemma narrow_piece_length:
  assumes len: "length xs = outer * (n * inner)" and j: "j < outer" and fit: "start + l \<le> n"
  shows "length (take (l * inner) (drop ((j * n + start) * inner) xs)) = l * inner"
proof -
  have "Suc j \<le> outer" using j by simp
  then have "Suc j * (n * inner) \<le> outer * (n * inner)" by (rule mult_le_mono1)
  moreover have "(start + l) * inner \<le> n * inner" using fit by (rule mult_le_mono1)
  ultimately have "(j * n + start) * inner + l * inner \<le> length xs"
    unfolding len by (simp add: algebra_simps)
  then show ?thesis by simp
qed

lemma cat_narrows:
  assumes wf: "well_formed t" and d: "d < length (shape t)" and n: "shape t ! d = k * c" and k: "0 < k"
  shows "cat (map (\<lambda>r. narrow t d (r * c) c) [0..<k]) d = Inr t"
proof -
  let ?s = "shape t" and ?xs = "data t"
  let ?outer = "prod_list (take d ?s)" and ?inner = "prod_list (drop (Suc d) ?s)"
  let ?ts = "map (\<lambda>r. narrow t d (r * c) c) [0..<k]"
  let ?s' = "?s[d := c]"
  have len: "length ?xs = ?outer * (k * c * ?inner)"
    using wf_length [OF wf d] n by simp
  have ne: "?ts \<noteq> []" using k by simp
  have sh: "\<And>u. u \<in> set ?ts \<Longrightarrow> shape u = ?s'" by (auto simp: narrow_def Let_def)
  have dat: "data (narrow t d (r * c) c) =
      concat (map (\<lambda>j. take (c * ?inner) (drop ((j * (k * c) + r * c) * ?inner) ?xs)) [0..<?outer])"
    for r by (simp add: narrow_def Let_def n)
  show ?thesis
  proof (cases "?s' = [0]")
    case True
    then have "length ?s = 1" "c = 0" using d
      by (metis length_list_update length_Cons list.size(3) One_nat_def,
          metis nth_list_update_eq nth_Cons_0 d length_list_update less_one length_Cons list.size(3) One_nat_def)
    then have s: "?s = [0]" using n d by (cases ?s) auto
    then have "?xs = []" using wf by (simp add: well_formed_def)
    then have t: "t = Tensor [0] []" using s by (cases t) simp
    have "filter (\<lambda>u. shape u \<noteq> [0]) ?ts = []"
      using sh True by (auto simp: filter_empty_conv)
    then show ?thesis using ne t unfolding cat_def by (simp only: if_False list.case)
  next
    case False
    have d': "d < length ?s'" using d by simp
    have shp: "?s'[d := length ?ts * ?s' ! d] = ?s" using d n by (simp add: list_update_same_conv)
    have tk: "prod_list (take d ?s') = ?outer" by simp
    have dr: "prod_list (drop d ?s') = c * ?inner"
      using prod_list_drop [OF d'] d by simp
    have blk: "take (c * ?inner) (drop (j * (c * ?inner)) (data (narrow t d (r * c) c)))
        = take (c * ?inner) (drop ((j * (k * c) + r * c) * ?inner) ?xs)"
      if "j < ?outer" "r < k" for j r
      unfolding dat
    proof (rule nth_block [OF _ that(1)])
      fix i assume i: "i < ?outer"
      have "r * c + c \<le> k * c" using that(2)
        by (metis Suc_leI mult_Suc mult_le_mono1 add.commute)
      with len i show "length (take (c * ?inner) (drop ((i * (k * c) + r * c) * ?inner) ?xs)) = c * ?inner"
        by (intro narrow_piece_length [where outer = ?outer]) (simp_all add: mult.assoc)
    qed
    have row: "concat (map (\<lambda>u. take (c * ?inner) (drop (j * (c * ?inner)) (data u))) ?ts)
        = take (k * c * ?inner) (drop (j * (k * c * ?inner)) ?xs)" if "j < ?outer" for j
    proof -
      have "concat (map (\<lambda>u. take (c * ?inner) (drop (j * (c * ?inner)) (data u))) ?ts)
          = concat (map (\<lambda>r. take (c * ?inner) (drop ((j * (k * c) + r * c) * ?inner) ?xs)) [0..<k])"
      proof -
        have "map (\<lambda>u. take (c * ?inner) (drop (j * (c * ?inner)) (data u))) ?ts
            = map (\<lambda>r. take (c * ?inner) (drop (j * (c * ?inner)) (data (narrow t d (r * c) c)))) [0..<k]"
          by (simp add: comp_def)
        also have "\<dots> = map (\<lambda>r. take (c * ?inner) (drop ((j * (k * c) + r * c) * ?inner) ?xs)) [0..<k]"
          using blk [OF that] by (intro map_cong) auto
        finally show ?thesis by (rule arg_cong)
      qed
      also have "\<dots> = concat (map (\<lambda>r. take (c * ?inner) (drop ((j * k + r) * (c * ?inner)) ?xs)) [0..<k])"
        by (simp add: algebra_simps)
      also have "\<dots> = take (k * (c * ?inner)) (drop (j * k * (c * ?inner)) ?xs)"
        by (rule take_rows [symmetric])
      finally show ?thesis by (simp add: mult.assoc)
    qed
    have "concat (map (\<lambda>j. concat (map (\<lambda>u. take (c * ?inner) (drop (j * (c * ?inner)) (data u))) ?ts))
            [0..<?outer])
        = concat (map (\<lambda>j. take (k * c * ?inner) (drop (j * (k * c * ?inner)) ?xs)) [0..<?outer])"
    proof -
      have "map (\<lambda>j. concat (map (\<lambda>u. take (c * ?inner) (drop (j * (c * ?inner)) (data u))) ?ts))
            [0..<?outer]
        = map (\<lambda>j. take (k * c * ?inner) (drop (j * (k * c * ?inner)) ?xs)) [0..<?outer]"
        using row by (intro map_cong) auto
      then show ?thesis by (rule arg_cong)
    qed
    also have "\<dots> = ?xs" using len by (intro concat_blocks) simp
    finally have all: "concat (map (\<lambda>j. concat (map (\<lambda>u. take (c * ?inner) (drop (j * (c * ?inner)) (data u))) ?ts))
            [0..<?outer]) = ?xs" .
    have "cat ?ts d =
        Inr (Tensor (?s'[d := length ?ts * ?s' ! d])
          (concat (map (\<lambda>j. concat (map (\<lambda>u. take (prod_list (drop d ?s'))
                                            (drop (j * prod_list (drop d ?s')) (data u))) ?ts))
                    [0..<prod_list (take d ?s')])))"
      by (rule cat_same_shape [OF ne sh False d'])
    also have "\<dots> = Inr (Tensor ?s ?xs)"
      by (simp only: shp tk dr all)
    finally show ?thesis by simp
  qed
qed


lemma narrow_full:
  assumes wf: "well_formed t" and d: "d < length (shape t)"
  shows "narrow t d 0 (shape t ! d) = t"
proof -
  have "concat (map (\<lambda>j. take (shape t ! d * prod_list (drop (Suc d) (shape t)))
          (drop (j * (shape t ! d * prod_list (drop (Suc d) (shape t)))) (data t)))
          [0..<prod_list (take d (shape t))]) = data t"
    using wf_length [OF wf d] by (intro concat_blocks) simp
  then show ?thesis by (cases t) (simp add: narrow_def Let_def mult.assoc)
qed

lemma ceil_exact:
  fixes T c :: nat
  assumes "0 < T"
  shows "(T * c + T - 1) div T = c"
proof -
  define u where "u = T - 1"
  have u: "u < T" "T * c + T - 1 = T * c + u" using assms by (simp_all add: u_def)
  have "(T * c + u) div T = c + u div T" using assms by (intro div_mult_self4) simp
  then show ?thesis using u by simp
qed

lemma split_even:
  assumes wf: "well_formed t" and tp: "1 \<le> tp"
    and ax: "wrap_dim (split_axis t dim) (length (shape t)) = Some d"
    and dv: "int (shape t ! d) mod tp = 0" and r: "r < nat tp"
  shows "split t tp (int r) dim =
     Inr (narrow t d (r * (shape t ! d div nat tp)) (shape t ! d div nat tp))"
proof -
  define T where "T = nat tp"
  define n where "n = shape t ! d"
  define c where "c = n div T"
  have T: "0 < T" "tp = int T" using tp by (simp_all add: T_def)
  have d: "d < length (shape t)" using ax by (rule wrap_dim_less)
  have "int n mod int T = 0" using dv T by (simp add: n_def)
  then have "n mod T = 0" by (metis of_nat_mod of_nat_eq_0_iff)
  then have n: "n = T * c" unfolding c_def by (metis mult_div_mod_eq add.right_neutral)
  have rT: "r < T" using r by (simp add: T_def)
  consider "tp = 1" | "1 < tp" "n = 0" | "1 < tp" "0 < n" using tp by linarith
  then have "split t tp (int r) dim = Inr (narrow t d (r * c) c)"
  proof cases
    case 1
    then have "T = 1" "r = 0" using T rT by simp_all
    then show ?thesis using 1 narrow_full [OF wf d] n by (simp add: split_def n_def)
  next
    case 2
    have ne: "shape t \<noteq> []" using d by auto
    have "chunk t tp (split_axis t dim) = Inr (replicate T (narrow t d 0 0))"
      using 2 ne ax T by (simp add: chunk_def n_def [symmetric])
    moreover have "split t tp (int r) dim
        = rbind (chunk t tp (split_axis t dim)) (\<lambda>cs. py_index cs (int r))"
      using 2 by (simp add: split_def split_axis_def)
    moreover have "c = 0" using 2 n T by simp
    ultimately show ?thesis using rT by (simp add: py_index_def)
  next
    case 3
    have ne: "shape t \<noteq> []" using d by auto
    have c0: "0 < c" using 3 n by (cases c) auto
    have c': "(n + T - 1) div T = c" unfolding n by (rule ceil_exact [OF T(1)])
    have k': "(n + c - 1) div c = T"
      using ceil_exact [OF c0, of T] unfolding n by (simp add: mult.commute)
    have "Suc r * c \<le> T * c" using rT by (intro mult_le_mono1) simp
    then have m: "min c (n - r * c) = c" unfolding n by simp
    have "split t tp (int r) dim =
        (let n = shape t ! d; c = (n + nat tp - 1) div nat tp; k = (n + c - 1) div c
         in if int r < int k then Inr (narrow t d (nat (int r) * c) (min c (n - nat (int r) * c)))
            else Inl IndexError)"
      using 3 by (intro split_pos [OF _ ne ax]) (simp_all add: n_def)
    then show ?thesis
      unfolding Let_def n_def [symmetric] T_def [symmetric] c' k' using rT m by simp
  qed
  then show ?thesis unfolding c_def n_def T_def .
qed

text \<open>
  Claim C3. For a well-formed tensor, \<open>tp_size \<ge> 1\<close> and a size along the split axis that
  is a multiple of \<open>tp_size\<close>, \<open>split\<close> succeeds for every rank in \<open>[0, tp_size)\<close> and
  concatenating the \<open>tp_size\<close> shards along that axis gives the tensor back, shape and
  elements.
\<close>

theorem split_cat_roundtrip:
  assumes wf: "well_formed t" and tp: "1 \<le> tp"
    and ax: "wrap_dim (split_axis t dim) (length (shape t)) = Some d"
    and dv: "int (shape t ! d) mod tp = 0"
  shows "\<exists>ts. collect (map (\<lambda>r. split t tp (int r) dim) [0..<nat tp]) = Inr ts \<and>
              length ts = nat tp \<and> cat ts d = Inr t"
proof -
  define c where "c = shape t ! d div nat tp"
  let ?ts = "map (\<lambda>r. narrow t d (r * c) c) [0..<nat tp]"
  have d: "d < length (shape t)" using ax by (rule wrap_dim_less)
  have "map (\<lambda>r. split t tp (int r) dim) [0..<nat tp] = map Inr ?ts"
    using split_even [OF wf tp ax dv] by (simp add: c_def)
  then have 1: "collect (map (\<lambda>r. split t tp (int r) dim) [0..<nat tp]) = Inr ?ts"
    by (simp only: collect_Inr)
  have "int (shape t ! d) mod int (nat tp) = 0" using dv tp by simp
  then have "shape t ! d mod nat tp = 0" by (metis of_nat_mod of_nat_eq_0_iff)
  then have "shape t ! d = nat tp * c" unfolding c_def by (metis mult_div_mod_eq add.right_neutral)
  moreover have "0 < nat tp" using tp by simp
  ultimately have 2: "cat ?ts d = Inr t" by (intro cat_narrows [OF wf d])
  show ?thesis using 1 2 by simp
qed

theorem split_cat_roundtrip_witness:
  "\<exists>ts. collect (map (\<lambda>r. split (Tensor [2, 4] [1, 2, 3, 4, 5, 6, 7, 8 :: nat]) 2 (int r) 1)
                [0..<nat 2]) = Inr ts \<and>
        length ts = nat 2 \<and> cat ts 1 = Inr (Tensor [2, 4] [1, 2, 3, 4, 5, 6, 7, 8])"
  by (rule split_cat_roundtrip) (simp_all add: well_formed_def split_axis_def wrap_dim_def)

subsection \<open>The two QKV splitting paths\<close>

lemma infer_size_second:
  assumes "0 \<le> a"
  shows "infer_size (a # - 1 # map int s) k =
     (if 0 < nat a * prod_list s \<and> k mod (nat a * prod_list s) = 0
      then Inr (nat a # k div (nat a * prod_list s) # s) else Inl RuntimeError)"
proof -
  have a: "\<not> list_ex (\<lambda>d. d < - 1) (map int s)" by (induction s) auto
  have b: "count_list (map int s) (- 1) = 0" by (induction s) auto
  have c: "filter (\<lambda>d. d \<noteq> - 1) (map int s) = map int s" by (induction s) auto
  have e: "map nat (map int s) = s" by (induction s) auto
  have f: "map (\<lambda>d. if d = - 1 then x else nat d) (map int s) = s" for x by (induction s) auto
  show ?thesis unfolding infer_size_def Let_def using a b c e f assms by simp
qed

lemma narrow_axis0:
  "narrow (Tensor (n # s) xs) 0 start len =
     Tensor (len # s) (take (len * prod_list s) (drop (start * prod_list s) xs))"
  by (simp add: narrow_def Let_def)

lemma narrow_axis1_gen:
  "narrow (Tensor (a # n # s) xs) (Suc 0) start len =
     Tensor (a # len # s)
       (concat (map (\<lambda>j. take (len * prod_list s) (drop ((j * n + start) * prod_list s) xs)) [0..<a]))"
  by (simp add: narrow_def Let_def)

lemma take_drop_take:
  assumes "a + l \<le> b"
  shows "take l (drop a (take b ys)) = take l (drop a ys)"
  using assms by (simp add: drop_take min_def)


lemma shard_data_unfold:
  "shard_data h c I r xs =
     take (c * I) (drop ((r * c) * I) xs) @
     take (c * I) (drop ((h + r * c) * I) xs) @
     take (c * I) (drop ((2 * h + r * c) * I) xs)"
proof -
  have "[0..<3] = [0, 1, 2]" by (simp add: upt_rec)
  then show ?thesis by (simp add: shard_data_def)
qed

lemma split_rows_even:
  assumes len: "length q = h * prod_list rest" and h: "h = T * c" and T: "0 < T" "r < T"
  shows "split (Tensor (h # rest) q) (int T) (int r) 0 =
     Inr (Tensor (c # rest) (take (c * prod_list rest) (drop (r * c * prod_list rest) q)))"
proof -
  have "split (Tensor (h # rest) q) (int T) (int r) 0 =
      Inr (narrow (Tensor (h # rest) q) 0 (r * (shape (Tensor (h # rest) q) ! 0 div nat (int T)))
             (shape (Tensor (h # rest) q) ! 0 div nat (int T)))"
    using len h T by (intro split_even) (simp_all add: well_formed_def split_axis_def wrap_dim_def)
  then show ?thesis using h T by (simp add: narrow_axis0)
qed

lemma gqa_split_one:
  assumes len: "length xs = 3 * (h * I)" and sh: "prod_list s0 = 3 * (h * I)"
    and I: "I = prod_list rest" and I0: "0 < I" and h: "h = T * c" "0 < c" and T: "0 < T" "r < T"
  shows "gqa_split (Tensor s0 xs) 1 (map int rest) (int T) (int r) =
     Inr (Tensor (3 * c # rest) (shard_data h c I r xs))"
proof -
  let ?w = "Tensor (3 # h # rest) xs"
  define q where "q = take (h * I) xs"
  define k where "k = take (h * I) (drop (h * I) xs)"
  define v where "v = take (h * I) (drop (2 * (h * I)) xs)"
  have h0: "0 < h" using h T by simp
  have g1: "reshape (Tensor s0 xs) ([1 + 2, - 1] @ map int rest) = Inr ?w"
    using infer_size_second [of 3 rest "3 * (h * I)"] I I0 h0
    by (simp add: reshape_def numel_def sh)
  have g2: "slice_dim ?w 0 0 1 = Inr (Tensor (1 # h # rest) q)"
    by (simp add: slice_dim_def slice_bound_def narrow_axis0 q_def I)
  have g3: "slice_dim ?w 0 1 (1 + 1) = Inr (Tensor (1 # h # rest) k)"
    by (simp add: slice_dim_def slice_bound_def narrow_axis0 k_def I)
  have g4: "slice_dim ?w 0 (1 + 1) (1 + 2) = Inr (Tensor (1 # h # rest) v)"
    by (simp add: slice_dim_def slice_bound_def narrow_axis0 v_def I)
  have g5: "reshape (Tensor (1 # h # rest) y) ([- 1] @ map int rest) = Inr (Tensor (h # rest) y)" for y :: "'a list"
    using reshape_lead [of "Tensor (1 # h # rest) y" rest] I I0 by (simp add: numel_def)
  have lq: "length q = h * prod_list rest" "length k = h * prod_list rest" "length v = h * prod_list rest"
    using len I by (simp_all add: q_def k_def v_def)
  let ?piece = "\<lambda>y. Tensor (c # rest) (take (c * I) (drop (r * c * I) y))"
  have g6: "split (Tensor (h # rest) q) (int T) (int r) 0 = Inr (?piece q)"
    "split (Tensor (h # rest) k) (int T) (int r) 0 = Inr (?piece k)"
    "split (Tensor (h # rest) v) (int T) (int r) 0 = Inr (?piece v)"
    using split_rows_even [OF _ h(1) T] lq I by simp_all
  have g7: "cat [?piece q, ?piece k, ?piece v] 0 = Inr (Tensor (3 * c # rest) (shard_data h c I r xs))"
  proof -
    have fit: "r * c * I + c * I \<le> h * I"
    proof -
      have "Suc r * c \<le> T * c" using T by (intro mult_le_mono1) simp
      then have "Suc r * c * I \<le> T * c * I" by (rule mult_le_mono1)
      then show ?thesis unfolding h by (simp add: algebra_simps)
    qed
    have p: "take (c * I) (drop (r * c * I) (take (h * I) ys)) = take (c * I) (drop (r * c * I) ys)"
      for ys :: "'a list"
      using fit by (intro take_drop_take) (simp add: add.commute)
    have d1: "take (c * I) (drop (r * c * I) q) = take (c * I) (drop ((r * c) * I) xs)"
      unfolding q_def by (rule p)
    have d2: "take (c * I) (drop (r * c * I) k) = take (c * I) (drop ((h + r * c) * I) xs)"
      unfolding k_def p by (simp add: algebra_simps)
    have d3: "take (c * I) (drop (r * c * I) v) = take (c * I) (drop ((2 * h + r * c) * I) xs)"
      unfolding v_def p by (simp add: algebra_simps)
    have "cat [?piece q, ?piece k, ?piece v] 0 =
        Inr (Tensor ((c # rest)[0 := length [?piece q, ?piece k, ?piece v] * (c # rest) ! 0])
          (concat (map (\<lambda>j. concat (map (\<lambda>t. take (prod_list (drop 0 (c # rest)))
                          (drop (j * prod_list (drop 0 (c # rest))) (data t)))
                        [?piece q, ?piece k, ?piece v]))
                    [0..<prod_list (take 0 (c # rest))])))"
      using h by (intro cat_same_shape) auto
    also have "\<dots> = Inr (Tensor (3 * c # rest) (take (c * I) (drop (r * c * I) q) @
        take (c * I) (drop (r * c * I) k) @ take (c * I) (drop (r * c * I) v)))"
      by (simp add: I [symmetric])
    also have "\<dots> = Inr (Tensor (3 * c # rest) (shard_data h c I r xs))"
      by (simp only: d1 d2 d3 shard_data_unfold)
    finally show ?thesis .
  qed
  show ?thesis
    by (simp only: gqa_split_def g1 g2 g3 g4 g5 g6 g7 rbind_simps)
qed


lemma mha_split_one:
  assumes len: "length xs = 3 * (h * I)" and sh: "prod_list s0 = 3 * (h * I)"
    and I: "I = prod_list rest" and h: "h = T * c" and T: "0 < T" "r < T"
  shows "rbind (reshape (Tensor s0 xs) (3 # int h # map int rest)) (\<lambda>v3.
         rbind (split v3 (int T) (int r) 1) (\<lambda>split_v.
         rbind (py_floordiv (int h) (int T)) (\<lambda>per_rank.
         reshape split_v (3 * per_rank # map int rest))))
       = Inr (Tensor (3 * c # rest) (shard_data h c I r xs))"
proof -
  let ?w = "Tensor (3 # h # rest) xs"
  let ?ys = "shard_data h c I r xs"
  have m1: "reshape (Tensor s0 xs) (3 # int h # map int rest) = Inr ?w"
    using reshape_nat [of "Tensor s0 xs" "3 # h # rest"] by (simp add: numel_def sh I)
  have "split ?w (int T) (int r) 1 =
      Inr (narrow ?w 1 (r * (shape ?w ! 1 div nat (int T))) (shape ?w ! 1 div nat (int T)))"
    using len h T I by (intro split_even) (simp_all add: well_formed_def split_axis_def wrap_dim_def)
  then have m2: "split ?w (int T) (int r) 1 = Inr (Tensor (3 # c # rest) ?ys)"
    using h T by (simp add: narrow_axis1_gen shard_data_def I)
  have m3: "py_floordiv (int h) (int T) = Inr (int c)"
    using h T by (simp add: py_floordiv_def)
  have m4: "reshape (Tensor (3 # c # rest) ?ys) (3 * int c # map int rest)
      = Inr (Tensor (3 * c # rest) ?ys)"
    using reshape_nat [of "Tensor (3 # c # rest) ?ys" "3 * c # rest"] by (simp add: numel_def)
  show ?thesis by (simp only: m1 m2 m3 m4 rbind_simps)
qed

lemma split_qkv_tp_even:
  assumes "length xs = 3 * (h * h)" "h = T * c" "0 < T" "r < T"
  shows "split_qkv_tp (Tensor [3 * h, h] xs) nh (int h) (int T) (int r)
       = Inr (Tensor [3 * c, h] (shard_data h c h r xs))"
  using mha_split_one [of xs h h "[3 * h, h]" "[h]" T c r] assms
  by (simp add: split_qkv_tp_def)

lemma split_qkv_bias_tp_even:
  assumes "length xs = 3 * h" "h = T * c" "0 < T" "r < T"
  shows "split_qkv_bias_tp (Tensor [3 * h] xs) nh (int h) (int T) (int r)
       = Inr (Tensor [3 * c] (shard_data h c 1 r xs))"
  using mha_split_one [of xs h 1 "[3 * h]" "[]" T c r] assms
  by (simp add: split_qkv_bias_tp_def)

lemma gqa_split_weight_even:
  assumes "length xs = 3 * (h * h)" "h = T * c" "0 < c" "0 < T" "r < T"
  shows "gqa_split (Tensor [3 * h, h] xs) 1 [int h] (int T) (int r)
       = Inr (Tensor [3 * c, h] (shard_data h c h r xs))"
  using gqa_split_one [of xs h h "[3 * h, h]" "[h]" T c r] assms by simp

lemma gqa_split_bias_even:
  assumes "length xs = 3 * h" "h = T * c" "0 < c" "0 < T" "r < T"
  shows "gqa_split (Tensor [3 * h] xs) 1 [] (int T) (int r)
       = Inr (Tensor [3 * c] (shard_data h c 1 r xs))"
  using gqa_split_one [of xs h 1 "[3 * h]" "[]" T c r] assms by simp

text \<open>
  Claim C2. For equal head counts, a positive hidden size, a \<open>tp_size\<close> that divides it
  and a rank in \<open>[0, tp_size)\<close>, the grouped-query branch and the multi-head branch of
  \<open>split_weights_tp\<close> return the same weight shard and the same bias shard for a
  reassembled fused weight of shape \<open>[3 * hidden, hidden]\<close> and bias of shape
  \<open>[3 * hidden]\<close>, and both succeed.
\<close>

theorem qkv_paths_agree:
  assumes heads: "num_heads = num_kv_heads" "num_heads \<noteq> 0"
    and hidden: "0 < hidden_size" and tp: "1 \<le> tp_size" "tp_size dvd hidden_size"
    and rank: "0 \<le> rank" "rank < tp_size"
    and w: "well_formed qkv_weight" "shape qkv_weight = [3 * nat hidden_size, nat hidden_size]"
    and b: "well_formed qkv_bias" "shape qkv_bias = [3 * nat hidden_size]"
  shows "qkv_gqa_path qkv_weight qkv_bias num_heads num_kv_heads hidden_size tp_size rank
           = qkv_mha_path qkv_weight qkv_bias num_heads hidden_size tp_size rank \<and>
         (\<exists>shards. qkv_mha_path qkv_weight qkv_bias num_heads hidden_size tp_size rank
                     = Inr shards)"
proof -
  define h where "h = nat hidden_size"
  define T where "T = nat tp_size"
  define r where "r = nat rank"
  define c where "c = h div T"
  have i: "hidden_size = int h" "tp_size = int T" "rank = int r"
    using hidden tp rank by (simp_all add: h_def T_def r_def)
  have T: "0 < T" "r < T" using tp rank by (simp_all add: T_def r_def)
  have "int T dvd int h" using tp(2) unfolding i .
  then have "T dvd h" by (simp only: int_dvd_int_iff)
  then have h: "h = T * c" by (simp add: c_def)
  have c: "0 < c" using h hidden i by (cases c) auto
  obtain xs where W: "qkv_weight = Tensor [3 * h, h] xs" and lx: "length xs = 3 * (h * h)"
    using w by (cases qkv_weight) (simp add: well_formed_def h_def)
  obtain ys where B: "qkv_bias = Tensor [3 * h] ys" and ly: "length ys = 3 * h"
    using b by (cases qkv_bias) (simp add: well_formed_def h_def)
  have one: "py_floordiv num_heads num_kv_heads = Inr 1"
    using heads by (simp add: py_floordiv_def)
  have g: "qkv_gqa_path qkv_weight qkv_bias num_heads num_kv_heads hidden_size tp_size rank
      = Inr (Tensor [3 * c, h] (shard_data h c h r xs), Tensor [3 * c] (shard_data h c 1 r ys))"
    unfolding qkv_gqa_path_def one i W B
    by (simp only: rbind_simps gqa_split_weight_even [OF lx h c T]
          gqa_split_bias_even [OF ly h c T])
  have m: "qkv_mha_path qkv_weight qkv_bias num_heads hidden_size tp_size rank
      = Inr (Tensor [3 * c, h] (shard_data h c h r xs), Tensor [3 * c] (shard_data h c 1 r ys))"
    unfolding qkv_mha_path_def i W B
    by (simp only: rbind_simps split_qkv_tp_even [OF lx h T]
          split_qkv_bias_tp_even [OF ly h T])
  show ?thesis unfolding g m by simp
qed

theorem qkv_paths_agree_witness:
  "qkv_gqa_path (Tensor [12, 4] [0..<48]) (Tensor [12] [0..<12]) 4 4 4 2 1
     = qkv_mha_path (Tensor [12, 4] [0..<48]) (Tensor [12] [0..<12]) 4 4 2 1 \<and>
   (\<exists>shards. qkv_mha_path (Tensor [12, 4] [0..<48]) (Tensor [12] [0..<12]) 4 4 2 1 = Inr shards)"
  by (rule qkv_paths_agree) (simp_all add: well_formed_def)

subsection \<open>The orchestrator: embedding and output projection\<close>

lemma rbindE:
  assumes "rbind m f = Inr y"
  obtains x where "m = Inr x" "f x = Inr y"
  using assms by (cases m) (simp_all add: rbind_def)

lemma map_of_dict_set: "map_of (dict_set k v d) = (map_of d)(k \<mapsto> v)"
  by (induction d) (auto simp: fun_eq_iff)

lemma dict_get_set: "dict_get (dict_set k v d) k' = (if k' = k then Inr v else dict_get d k')"
  by (simp add: dict_get_def map_of_dict_set)

lemma dict_get_update_other:
  assumes "k \<notin> fst ` set r"
  shows "dict_get (dict_update w r) k = dict_get w k"
  using assms by (induction r arbitrary: w) (auto simp: dict_get_set)

lemma layer_key_append: "layer_key p \<Longrightarrow> layer_key (p @ s)"
proof -
  assume a: "layer_key p"
  then have "length (take 19 p) = 19" by (simp add: layer_key_def)
  then have "19 \<le> length p" by simp
  then show ?thesis using a by (simp add: layer_key_def)
qed

lemma pack_keys:
  assumes "get_tllm_linear_weight ext wt p bias u qt = Inr r" "layer_key p" "(k, v) \<in> set r"
  shows "layer_key k"
proof -
  have "fst ` set (dict_set a b d) = insert a (fst ` set d)" for a and b :: "'a tensor" and d
    using map_of_dict_set [of a b d]
    by (metis dom_map_of_conv_image_fst dom_fun_upd option.distinct(1))
  then have sub: "k' \<in> fst ` set (dict_set a b d) \<Longrightarrow> k' = a \<or> k' \<in> fst ` set d"
    for k' a and b :: "'a tensor" and d by blast
  have "k \<in> fst ` set r" using assms(3) by force
  then have "k \<in> {p @ ''.weight'', p @ ''.per_channel_scale'', p @ ''.bias''}"
    using assms(1)
    by (auto simp: get_tllm_linear_weight_def split: if_splits option.splits prod.splits
          elim!: rbindE dest!: sub)
  then show ?thesis using layer_key_append [OF assms(2)] by auto
qed

lemma pack_step:
  assumes "get_tllm_linear_weight ext wt p bias u qt = Inr r" "layer_key p" "\<not> layer_key k"
  shows "dict_get (dict_update w r) k = dict_get w k"
proof (rule dict_get_update_other)
  show "k \<notin> fst ` set r" using pack_keys [OF assms(1,2)] assms(3) by force
qed


lemma layer_prefix_key: "layer_key (''transformer.layers.'' @ x)"
  by (simp add: layer_key_def)

lemma convert_layer_other:
  assumes run: "convert_layer ext num_heads num_kv_heads hidden_size a rank dt w i = Inr w'"
    and k: "\<not> layer_key k"
  shows "dict_get w' k = dict_get w k"
proof -
  define lp where "lp = ''transformer.layers.'' @ str_nat i @ ''.''"
  have lk: "layer_key (lp @ s)" for s
    unfolding lp_def using layer_prefix_key [of "str_nat i @ ''.'' @ s"] by simp
  from run obtain r1 r2 r3 r4 p1 p2 p3 p4 x1 x2 x3 x4 b1 b2 b3 b4 where
    g1: "get_tllm_linear_weight ext x1 (lp @ p1) b1 (arg_use_weight_only a) (plugin_type a) = Inr r1"
    and g2: "get_tllm_linear_weight ext x2 (lp @ p2) b2 (arg_use_weight_only a) (plugin_type a) = Inr r2"
    and g3: "get_tllm_linear_weight ext x3 (lp @ p3) b3 (arg_use_weight_only a) (plugin_type a) = Inr r3"
    and g4: "get_tllm_linear_weight ext x4 (lp @ p4) b4 (arg_use_weight_only a) (plugin_type a) = Inr r4"
    and e: "w' = dict_update (dict_update (dict_update (dict_update w r1) r2) r3) r4"
    unfolding convert_layer_def Let_def lp_def [symmetric]
    by (auto elim!: rbindE split: prod.splits)
  show ?thesis
    unfolding e
    by (simp only: pack_step [OF g4 lk k] pack_step [OF g3 lk k] pack_step [OF g2 lk k]
          pack_step [OF g1 lk k])
qed

lemma layers_loop_other:
  assumes "layers_loop f js w = Inr w'"
    and "\<And>w i w'. f w i = Inr w' \<Longrightarrow> dict_get w' k = dict_get w k"
  shows "dict_get w' k = dict_get w k"
  using assms
proof (induction js arbitrary: w)
  case Nil
  then show ?case by simp
next
  case (Cons j js)
  from Cons.prems(1) obtain w1 where 1: "f w j = Inr w1" and 2: "layers_loop f js w1 = Inr w'"
    by (auto elim: rbindE)
  have "dict_get w' k = dict_get w1 k" using Cons.IH [OF 2 Cons.prems(2)] .
  also have "\<dots> = dict_get w k" using Cons.prems(2) [OF 1] .
  finally show ?case .
qed

lemma fixed_keys:
  "\<not> layer_key vocab_embedding_key" "\<not> layer_key lm_head_key"
  "vocab_embedding_key \<noteq> lm_head_key"
  by (simp_all add: layer_key_def vocab_embedding_key_def lm_head_key_def)

lemma split_weights_tp_result:
  assumes "split_weights_tp ext config weights a rank dt = Inr w'"
  shows "\<exists>emb lm lm'. dict_get weights vocab_embedding_key = Inr emb \<and>
           dict_get w' vocab_embedding_key = Inr emb \<and>
           dict_get weights lm_head_key = Inr lm \<and>
           split lm (arg_tp_size a) rank 0 = Inr lm' \<and>
           dict_get w' lm_head_key = Inr lm'"
proof -
  from assms obtain nh nkv hs nl w1 emb emb' lm lm' where
    loop: "layers_loop (convert_layer ext nh nkv hs a rank dt) [0..<nat nl] weights = Inr w1"
    and e: "dict_get w1 vocab_embedding_key = Inr emb"
    and e': "split_embedding_tensor emb (arg_tp_size a) rank False 0 = Inr emb'"
    and l: "dict_get (dict_set vocab_embedding_key emb' w1) lm_head_key = Inr lm"
    and l': "split_matrix_tp lm (arg_tp_size a) rank 0 = Inr lm'"
    and w': "w' = dict_set lm_head_key lm' (dict_set vocab_embedding_key emb' w1)"
    unfolding split_weights_tp_def Let_def by (elim rbindE) auto
  have keep: "dict_get w1 k = dict_get weights k" if "\<not> layer_key k" for k
    using loop convert_layer_other [OF _ that] by (rule layers_loop_other)
  have "emb' = emb" using e' by (simp add: split_embedding_tensor_def split_embedding_with_def)
  then show ?thesis
    using e l l' w' keep [OF fixed_keys(1)] keep [OF fixed_keys(2)] fixed_keys(3)
    by (simp add: dict_get_set split_matrix_tp_def split: if_splits)
qed

text \<open>
  Claim C8. Whenever \<open>split_weights_tp\<close> returns, the entry
  \<open>transformer.vocab_embedding.weight\<close> of the result is the embedding tensor it was
  given, whole, for every \<open>tp_size\<close> and rank (parallel embedding is left off), and the
  entry \<open>lm_head.weight\<close> is \<open>split\<close> of the given one along axis 0.
\<close>

theorem split_weights_tp_embedding:
  assumes "split_weights_tp ext config weights a rank dt = Inr w'"
  shows "\<exists>emb lm lm'. dict_get weights vocab_embedding_key = Inr emb \<and>
           dict_get w' vocab_embedding_key = Inr emb \<and>
           dict_get weights lm_head_key = Inr lm \<and>
           split lm (arg_tp_size a) rank 0 = Inr lm' \<and>
           dict_get w' lm_head_key = Inr lm'"
  using assms by (rule split_weights_tp_result)

lemma example_split_weights_tp:
  "split_weights_tp plain_externals example_config example_weights example_args 1 () =
     Inr [(''transformer.vocab_embedding.weight'', Tensor [4, 2] [1, 2, 3, 4, 5, 6, 7, 8]),
          (''lm_head.weight'', Tensor [2, 2] [9, 9, 9, 9]),
          (''transformer.layers.0.attention.qkv.weight'', Tensor [3, 2] [3, 4, 7, 8, 11, 12]),
          (''transformer.layers.0.attention.qkv.bias'', Tensor [3] [2, 4, 6]),
          (''transformer.layers.0.attention.dense.weight'', Tensor [2, 1] [2, 4]),
          (''transformer.layers.0.attention.dense.bias'', Tensor [2] [1, 2]),
          (''transformer.layers.0.mlp.fc.weight'', Tensor [2, 2] [5, 6, 7, 8]),
          (''transformer.layers.0.mlp.fc.bias'', Tensor [2] [3, 4]),
          (''transformer.layers.0.mlp.proj.weight'', Tensor [2, 2] [3, 4, 7, 8]),
          (''transformer.layers.0.mlp.proj.bias'', Tensor [2] [1, 2])]"
  by code_simp

theorem split_weights_tp_embedding_witness:
  "\<exists>w' emb lm lm'.
     split_weights_tp plain_externals example_config example_weights example_args 1 () = Inr w' \<and>
     dict_get example_weights vocab_embedding_key = Inr emb \<and>
     dict_get w' vocab_embedding_key = Inr emb \<and>
     dict_get example_weights lm_head_key = Inr lm \<and>
     split lm (arg_tp_size example_args) 1 0 = Inr lm' \<and>
     dict_get w' lm_head_key = Inr lm'"
  using split_weights_tp_embedding [OF example_split_weights_tp] example_split_weights_tp
  by blast

subsection \<open>Checkpoint conversion\<close>

lemma rename_state_dict_lookup:
  "dict_get (rename_state_dict ext dt sd w0) k =
     (case renamed_lookup sd k of
        None \<Rightarrow> dict_get w0 k
      | Some e \<Rightarrow> Inr (to_dtype ext dt e))"
proof (induction sd arbitrary: w0)
  case Nil
  show ?case by simp
next
  case (Cons item sd)
  obtain key v where item: "item = (key, v)" by (cases item)
  show ?case unfolding item
    by (simp add: Cons.IH dict_get_set split: option.split)
qed

lemma shuffle_all_other:
  assumes "shuffle_all keys config w = Inr w'" "\<not> contains ''qkv.'' k"
  shows "dict_get w' k = dict_get w k"
  using assms
proof (induction keys arbitrary: w)
  case Nil
  then show ?case by simp
next
  case (Cons key keys)
  show ?case
  proof (cases "contains ''qkv.'' key")
    case False
    then show ?thesis using Cons by simp
  next
    case True
    then have ne: "k \<noteq> key" using Cons.prems(2) by auto
    from Cons.prems(1) True obtain t t' where
      "shuffle_all keys config (dict_set key t' w) = Inr w'"
      by (auto elim!: rbindE)
    from Cons.IH [OF this Cons.prems(2)] ne show ?thesis by (simp add: dict_get_set)
  qed
qed

lemma fixed_keys_no_qkv:
  "\<not> contains ''qkv.'' vocab_embedding_key" "\<not> contains ''qkv.'' lm_head_key"
  by (simp_all add: vocab_embedding_key_def lm_head_key_def)

lemma rename_fixed_keys:
  "rename_key ''model.embed_tokens.weight'' = vocab_embedding_key"
  "rename_key ''lm_head.weight'' = lm_head_key"
  by code_simp+

lemma shape_to_dtype: "shape (to_dtype ext dt t) = shape t"
  by (simp add: to_dtype_def)

lemma wf_to_dtype: "well_formed (to_dtype ext dt t) = well_formed t"
  by (simp add: well_formed_def to_dtype_def)

text \<open>
  Claim C9, as amended. Whenever \<open>convert_hf_weights\<close> returns, the entry
  \<open>lm_head.weight\<close> of the result is \<open>split\<close> along axis 0 of the source tensor renamed
  to \<open>transformer.vocab_embedding.weight\<close>, cast to the target dtype, whatever the
  checkpoint has under \<open>lm_head.weight\<close>. Where that tensor is well formed, \<open>tp_size\<close>
  is at least 1, the rank lies in \<open>[0, tp_size)\<close> and the vocabulary size is a multiple of
  \<open>tp_size\<close>, this is chunk \<open>rank\<close> of the \<open>tp_size\<close> equal chunks of the rows of the
  cast tensor.
\<close>

theorem convert_hf_weights_lm_head:
  assumes "convert_hf_weights ext hf_state_dict config a rank = Inr w'"
  shows "\<exists>dt emb lm'.
           str_dtype_to_torch ext (arg_dtype a) = Inr dt \<and>
           renamed_lookup hf_state_dict vocab_embedding_key = Some emb \<and>
           split (to_dtype ext dt emb) (arg_tp_size a) rank 0 = Inr lm' \<and>
           dict_get w' lm_head_key = Inr lm' \<and>
           (well_formed emb \<and> shape emb \<noteq> [] \<and> 1 \<le> arg_tp_size a \<and> 0 \<le> rank \<and> rank < arg_tp_size a \<and>
            int (shape emb ! 0) mod arg_tp_size a = 0 \<longrightarrow>
            lm' = narrow (to_dtype ext dt emb) 0
                    (nat rank * (shape emb ! 0 div nat (arg_tp_size a)))
                    (shape emb ! 0 div nat (arg_tp_size a)))"
proof -
  from assms obtain dt e w2 where
    dt: "str_dtype_to_torch ext (arg_dtype a) = Inr dt"
    and e: "dict_get (rename_state_dict ext dt hf_state_dict []) vocab_embedding_key = Inr e"
    and sh: "shuffle_all
               (map fst (dict_set lm_head_key e (rename_state_dict ext dt hf_state_dict [])))
               config (dict_set lm_head_key e (rename_state_dict ext dt hf_state_dict [])) = Inr w2"
    and sp: "split_weights_tp ext config w2 a rank dt = Inr w'"
    unfolding convert_hf_weights_def Let_def by (auto elim!: rbindE)
  from e obtain emb where emb: "renamed_lookup hf_state_dict vocab_embedding_key = Some emb"
    and e': "e = to_dtype ext dt emb"
    unfolding rename_state_dict_lookup
    by (cases "renamed_lookup hf_state_dict vocab_embedding_key") (auto simp: dict_get_def)
  have "dict_get w2 lm_head_key = Inr e"
    using shuffle_all_other [OF sh fixed_keys_no_qkv(2)] by (simp add: dict_get_set)
  with split_weights_tp_result [OF sp] obtain lm' where
    lm: "split e (arg_tp_size a) rank 0 = Inr lm'" and out: "dict_get w' lm_head_key = Inr lm'"
    by auto
  have "lm' = narrow e 0 (nat rank * (shape emb ! 0 div nat (arg_tp_size a)))
                (shape emb ! 0 div nat (arg_tp_size a))"
    if c: "well_formed emb" "shape emb \<noteq> []" "1 \<le> arg_tp_size a" "0 \<le> rank" "rank < arg_tp_size a"
      "int (shape emb ! 0) mod arg_tp_size a = 0"
  proof -
    have s: "shape e = shape emb" by (simp add: e' to_dtype_def)
    have "split e (arg_tp_size a) (int (nat rank)) 0 =
        Inr (narrow e 0 (nat rank * (shape e ! 0 div nat (arg_tp_size a)))
               (shape e ! 0 div nat (arg_tp_size a)))"
      using c by (intro split_even) (auto simp: e' wf_to_dtype shape_to_dtype wrap_dim_def split_axis_def)
    then show ?thesis using lm c(4) by (simp add: s)
  qed
  then show ?thesis using dt emb lm out e' by blast
qed

lemma example_convert_hf_weights:
  "convert_hf_weights plain_externals example_state_dict example_config example_args 1 =
     Inr [(''transformer.vocab_embedding.weight'', Tensor [4, 2] [1, 2, 3, 4, 5, 6, 7, 8]),
          (''lm_head.weight'', Tensor [2, 2] [5, 6, 7, 8]),
          (''transformer.layers.0.attention.qkv.weight'', Tensor [3, 2] [7, 8, 9, 10, 11, 12]),
          (''transformer.layers.0.attention.qkv.bias'', Tensor [3] [4, 5, 6]),
          (''transformer.layers.0.attention.dense.weight'', Tensor [2, 1] [2, 4]),
          (''transformer.layers.0.attention.dense.bias'', Tensor [2] [1, 2]),
          (''transformer.layers.0.mlp.fc.weight'', Tensor [2, 2] [5, 6, 7, 8]),
          (''transformer.layers.0.mlp.fc.bias'', Tensor [2] [3, 4]),
          (''transformer.layers.0.mlp.proj.weight'', Tensor [2, 2] [3, 4, 7, 8]),
          (''transformer.layers.0.mlp.proj.bias'', Tensor [2] [1, 2])]"
  by code_simp

lemma example_embedding:
  "renamed_lookup example_state_dict vocab_embedding_key
     = Some (Tensor [4, 2] [1, 2, 3, 4, 5, 6, 7, 8])"
  by code_simp

theorem convert_hf_weights_lm_head_witness:
  "\<exists>w'. convert_hf_weights plain_externals example_state_dict example_config example_args 1
           = Inr w' \<and>
        dict_get w' lm_head_key =
          Inr (narrow (Tensor [4, 2] [1, 2, 3, 4, 5, 6, 7, 8]) 0 2 2) \<and>
        narrow (Tensor [4, 2] [1, 2, 3, 4, 5, 6, 7, 8 :: int]) 0 2 2 = Tensor [2, 2] [5, 6, 7, 8]"
proof -
  from convert_hf_weights_lm_head [OF example_convert_hf_weights] obtain dt emb lm' where
    emb: "renamed_lookup example_state_dict vocab_embedding_key = Some emb"
    and out: "dict_get
        [(''transformer.vocab_embedding.weight'', Tensor [4, 2] [1, 2, 3, 4, 5, 6, 7, 8]),
          (''lm_head.weight'', Tensor [2, 2] [5, 6, 7, 8]),
          (''transformer.layers.0.attention.qkv.weight'', Tensor [3, 2] [7, 8, 9, 10, 11, 12]),
          (''transformer.layers.0.attention.qkv.bias'', Tensor [3] [4, 5, 6]),
          (''transformer.layers.0.attention.dense.weight'', Tensor [2, 1] [2, 4]),
          (''transformer.layers.0.attention.dense.bias'', Tensor [2] [1, 2]),
          (''transformer.layers.0.mlp.fc.weight'', Tensor [2, 2] [5, 6, 7, 8]),
          (''transformer.layers.0.mlp.fc.bias'', Tensor [2] [3, 4]),
          (''transformer.layers.0.mlp.proj.weight'', Tensor [2, 2] [3, 4, 7, 8]),
          (''transformer.layers.0.mlp.proj.bias'', Tensor [2] [1, 2])] lm_head_key = Inr lm'"
    and eq: "well_formed emb \<and> shape emb \<noteq> [] \<and> 1 \<le> arg_tp_size example_args \<and> (0::int) \<le> 1 \<and>
            1 < arg_tp_size example_args \<and>
            int (shape emb ! 0) mod arg_tp_size example_args = 0 \<longrightarrow>
            lm' = narrow (to_dtype plain_externals dt emb) 0
                    (nat 1 * (shape emb ! 0 div nat (arg_tp_size example_args)))
                    (shape emb ! 0 div nat (arg_tp_size example_args))"
    by blast
  have e: "emb = Tensor [4, 2] [1, 2, 3, 4, 5, 6, 7, 8]" using emb example_embedding by simp
  have id: "to_dtype plain_externals dt emb = emb"
    by (cases emb) (simp add: to_dtype_def plain_externals_def)
  have "lm' = narrow emb 0 2 2"
    using eq unfolding id by (simp add: e well_formed_def example_args_def)
  moreover have "narrow (Tensor [4, 2] [1, 2, 3, 4, 5, 6, 7, 8 :: int]) 0 2 2 = Tensor [2, 2] [5, 6, 7, 8]"
    by (simp add: narrow_def)
  ultimately show ?thesis using out example_convert_hf_weights e by simp
qed

text \<open>
  Claim C9 as stated fails: an embedding of five rows on two ranks gives rank 0 three
  rows of \<open>lm_head.weight\<close> and rank 1 two, which are not equal chunks.
\<close>

theorem convert_hf_weights_unequal_counterexample:
  "convert_hf_weights plain_externals five_row_state_dict no_layer_config example_args 0 =
     Inr [(''transformer.vocab_embedding.weight'', Tensor [5, 1] [1, 2, 3, 4, 5]),
          (''lm_head.weight'', Tensor [3, 1] [1, 2, 3])] \<and>
   convert_hf_weights plain_externals five_row_state_dict no_layer_config example_args 1 =
     Inr [(''transformer.vocab_embedding.weight'', Tensor [5, 1] [1, 2, 3, 4, 5]),
          (''lm_head.weight'', Tensor [2, 1] [4, 5])]"
  by code_simp

text \<open>
  The chunks are chunks of the cast tensor: with a cast that rounds, the entries of
  \<open>lm_head.weight\<close> are the rounded ones, not those of the checkpoint.
\<close>

lemma convert_hf_weights_lm_head_cast:
  "convert_hf_weights rounding_externals
     [(''model.embed_tokens.weight'', Tensor [4, 1] [1, 2, 3, 4])] no_layer_config example_args 0 =
     Inr [(''transformer.vocab_embedding.weight'', Tensor [4, 1] [0, 2, 2, 4]),
          (''lm_head.weight'', Tensor [2, 1] [0, 2])]"
  by code_simp

subsection \<open>The padding the embedding splitter attempts\<close>

text \<open>
  With \<open>pad_vocab_size\<close> bound to the rounding the spec describes, the padding branch
  does what claim C4 says: a vocabulary of 30001 rows is padded to 30008, every one of the
  8 shards has 3751 rows, and the last 7 rows of the last shard are zero. The module as
  written raises before it comes to that.
\<close>

lemma split_embedding_padded_30001:
  assumes wf: "well_formed param" and sh: "shape param = [30001, h]"
    and r: "r < 8"
  shows "\<exists>t. split_embedding_with (Some pad_vocab_size_spec) param 8 (int r) True 0 = Inr t \<and>
             shape t = [3751, h] \<and>
             (r = 7 \<longrightarrow> drop (3744 * h) (data t) = replicate (7 * h) 0)"
proof -
  let ?p = "Tensor [30008, h] (data param @ replicate (7 * h) 0)"
  have len: "length (data param) = 30001 * h" using wf sh by (simp add: well_formed_def)
  have pad: "pad_rows param 7 = Inr ?p" by (simp add: pad_rows_def sh)
  have "split ?p 8 (int r) 0 =
      Inr (narrow ?p 0 (r * (shape ?p ! 0 div nat 8)) (shape ?p ! 0 div nat 8))"
    using r len by (intro split_even) (simp_all add: well_formed_def split_axis_def wrap_dim_def)
  then have sp: "split ?p 8 (int r) 0 =
      Inr (Tensor [3751, h] (take (3751 * h) (drop (r * 3751 * h) (data param @ replicate (7 * h) 0))))"
    by (simp add: narrow_axis0)
  have run: "split_embedding_with (Some pad_vocab_size_spec) param 8 (int r) True 0 =
      Inr (Tensor [3751, h] (take (3751 * h) (drop (r * 3751 * h) (data param @ replicate (7 * h) 0))))"
    by (simp add: split_embedding_with_def sh py_mod_def pad_vocab_size_spec_def pad sp)
  have "drop (3744 * h) (take (3751 * h) (drop (7 * 3751 * h) (data param @ replicate (7 * h) 0)))
      = replicate (7 * h) 0"
  proof -
    have "drop (7 * 3751 * h) (data param @ replicate (7 * h) 0)
        = drop (26257 * h) (data param) @ replicate (7 * h) 0"
      using len by simp
    moreover have "length (drop (26257 * h) (data param)) = 3744 * h"
      using len by (simp add: algebra_simps)
    ultimately show ?thesis by simp
  qed
  then show ?thesis using run by auto
qed

end
